theory Spec2Isabelle
  imports Main "HOL-Library.Sublist" "HOL-Library.Multiset"
begin

section \<open>The note state engine of the notes front end\<close>

text \<open>
  A shallow embedding of the script block of \<^verbatim>\<open>src/notes_frontend/src/routes/+page.ts\<close>
  (the Svelte page component): the \<^verbatim>\<open>Note\<close> type, the storage helpers
  \<^verbatim>\<open>loadNotes\<close> and \<^verbatim>\<open>saveNotes\<close>, the mutating handlers and the derived view.
  Module-level variables (\<^verbatim>\<open>notes\<close>, \<^verbatim>\<open>selectedId\<close>, ...) and the browser's
  \<^verbatim>\<open>localStorage\<close> are one explicit state record that every handler takes and
  returns. What the host supplies (\<^verbatim>\<open>browser\<close>, \<^verbatim>\<open>JSON.parse\<close>,
  \<^verbatim>\<open>JSON.stringify\<close>, \<^verbatim>\<open>Intl.Collator\<close>) is a record of parameters; the readings
  of \<^verbatim>\<open>Date.now()\<close> and \<^verbatim>\<open>crypto.randomUUID()\<close> are arguments of the handler that
  reads them. The two JSON functions are also modelled as the language standard defines
  them, on the values the model has, for the properties that depend on what they do.
\<close>

subsection \<open>Data model\<close>

text \<open>
  \<^verbatim>\<open>type Note = { id: string; title: string; content: string; createdAt: number;
  updatedAt: number; pinned?: boolean; color?: string | null }\<close>.
  An optional field is an \<open>option\<close> (\<open>None\<close> is an absent field, JavaScript's
  \<^verbatim>\<open>undefined\<close>); \<^verbatim>\<open>color\<close> is optional and nullable, so it has two layers:
  \<open>None\<close> absent, \<open>Some None\<close> the value \<^verbatim>\<open>null\<close>, \<open>Some (Some c)\<close> a colour.
  The field \<^verbatim>\<open>id\<close> is named \<open>id'\<close>, and the variable \<^verbatim>\<open>notes\<close> is
  \<open>notes'\<close>.

  A field of type \<^verbatim>\<open>number\<close> holds an integer (time stamps are milliseconds) or
  \<^verbatim>\<open>NaN\<close>. After a load it can also hold \<^verbatim>\<open>null\<close>: the cast to \<^verbatim>\<open>Note[]\<close> is
  unchecked, and \<^verbatim>\<open>null\<close> is what \<^verbatim>\<open>JSON.stringify\<close> writes for \<^verbatim>\<open>NaN\<close>.
  Fractions and the two infinities are left out (\<^verbatim>\<open>JSON.stringify\<close> treats an
  infinity as it treats \<^verbatim>\<open>NaN\<close>), and \<open>-0\<close> is not told from \<open>0\<close>.
\<close>

datatype number = Num int | NaN | Null

record Note =
  id' :: string
  title :: string
  content :: string
  createdAt :: number
  updatedAt :: number
  pinned :: "bool option"
  color :: "string option option"

text \<open>
  \<^verbatim>\<open>Partial<Note>\<close>: every field optional. \<open>None\<close> is a field that the argument
  does not supply.
\<close>

record partial_note =
  p_id :: "string option"
  p_title :: "string option"
  p_content :: "string option"
  p_createdAt :: "number option"
  p_updatedAt :: "number option"
  p_pinned :: "bool option"
  p_color :: "string option option"

datatype sort_mode = Updated | Created | Alpha

text \<open>
  What \<^verbatim>\<open>JSON.parse\<close> returns, as far as \<^verbatim>\<open>loadNotes\<close> looks at it:
  \<^verbatim>\<open>Array.isArray\<close> or not. The source casts a parsed array to \<^verbatim>\<open>Note[]\<close>
  unchecked; the model follows the cast and takes the elements of an array to be notes.
\<close>

datatype parsed = NotArray | IsArray "Note list"

datatype exn = SyntaxError

record host =
  browser :: bool
  JSON_parse :: "string \<Rightarrow> parsed option"
  JSON_stringify :: "Note list \<Rightarrow> string"
  collator_compare :: "string \<Rightarrow> string \<Rightarrow> int"

text \<open>
  \<^verbatim>\<open>localStorage\<close>: a string-keyed store, together with the number of
  \<^verbatim>\<open>setItem\<close> calls made so far, so that "no write" can be told from "a write of
  the same text".
\<close>

record storage =
  items :: "string \<rightharpoonup> string"
  setItem_calls :: nat

record app =
  notes' :: "Note list"
  selectedId :: "string option"
  query :: string
  sortBy :: sort_mode
  showPinnedOnly :: bool
  localStorage :: storage

subsection \<open>Storage helpers\<close>

definition STORAGE_KEY :: string where
  "STORAGE_KEY = ''notes-app-v1''"

definition getItem :: "storage \<Rightarrow> string \<Rightarrow> string option" where
  "getItem st k = items st k"

definition setItem :: "storage \<Rightarrow> string \<Rightarrow> string \<Rightarrow> storage" where
  "setItem st k v = st\<lparr>items := (items st)(k \<mapsto> v), setItem_calls := Suc (setItem_calls st)\<rparr>"

text \<open>
  The body of the \<^verbatim>\<open>try\<close> block of \<^verbatim>\<open>loadNotes\<close>. \<^verbatim>\<open>!raw\<close> holds for
  \<^verbatim>\<open>null\<close> and for the empty string; \<^verbatim>\<open>JSON.parse\<close> throws where the
  parameter returns \<open>None\<close>.
\<close>

definition loadNotes_try :: "host \<Rightarrow> storage \<Rightarrow> exn + Note list" where
  "loadNotes_try h st =
     (case getItem st STORAGE_KEY of
        None \<Rightarrow> Inr []
      | Some raw \<Rightarrow>
          if raw = [] then Inr []
          else (case JSON_parse h raw of
                  None \<Rightarrow> Inl SyntaxError
                | Some (IsArray ns) \<Rightarrow> Inr ns
                | Some NotArray \<Rightarrow> Inr []))"

definition loadNotes :: "host \<Rightarrow> storage \<Rightarrow> exn + Note list" where
  "loadNotes h st =
     (if \<not> browser h then Inr []
      else (case loadNotes_try h st of
              Inl e \<Rightarrow> Inr []
            | Inr ns \<Rightarrow> Inr ns))"

definition saveNotes :: "host \<Rightarrow> Note list \<Rightarrow> storage \<Rightarrow> storage" where
  "saveNotes h ns st =
     (if \<not> browser h then st
      else setItem st STORAGE_KEY (JSON_stringify h ns))"

subsection \<open>Application state and handlers\<close>

text \<open>
  The module-level initialisers:
  \<^verbatim>\<open>let notes = loadNotes(); let query = ''; let selectedId = notes.length ? notes[0].id : null;
  let sortBy = 'updated'; let showPinnedOnly = false\<close>.
  The reactive statement \<^verbatim>\<open>$: if (browser) saveNotes(notes)\<close> runs once when the
  page starts, after the initialisers: the initial state has the loaded collection
  saved again. The framework runs the statement once more after every assignment to
  \<^verbatim>\<open>notes\<close>, where it writes the text that the handler itself has just written;
  the model follows the handlers as they are written and leaves that second write out
  (the text in the store is the same, the count of \<^verbatim>\<open>setItem\<close> calls is lower by
  one for each handler that assigns). A handler that returns at its guard assigns
  nothing and so does not trigger the statement.
\<close>

definition init :: "host \<Rightarrow> storage \<Rightarrow> exn + app" where
  "init h st =
     (case loadNotes h st of
        Inl e \<Rightarrow> Inl e
      | Inr ns \<Rightarrow>
          Inr \<lparr>notes' = ns,
               selectedId = (case ns of [] \<Rightarrow> None | n # _ \<Rightarrow> Some (id' n)),
               query = [],
               sortBy = Updated,
               showPinnedOnly = False,
               localStorage = saveNotes h ns st\<rparr>)"

text \<open>
  \<^verbatim>\<open>createNote\<close>; \<open>ts\<close> is \<^verbatim>\<open>Date.now()\<close>, an integer, and \<open>uuid\<close> is
  \<^verbatim>\<open>crypto.randomUUID()\<close>.
\<close>

definition createNote :: "host \<Rightarrow> int \<Rightarrow> string \<Rightarrow> app \<Rightarrow> app" where
  "createNote h ts uuid s =
     (let n = \<lparr>id' = uuid, title = ''Untitled'', content = [], createdAt = Num ts,
                updatedAt = Num ts, pinned = Some False, color = Some None\<rparr>;
          ns = n # notes' s
      in s\<lparr>notes' := ns, selectedId := Some (id' n),
           localStorage := saveNotes h ns (localStorage s)\<rparr>)"

text \<open>The object spread \<^verbatim>\<open>{ ...n, ...partial }\<close>: a supplied field wins.\<close>

definition spread :: "Note \<Rightarrow> partial_note \<Rightarrow> Note" where
  "spread n p =
     \<lparr>id' = (case p_id p of None \<Rightarrow> id' n | Some v \<Rightarrow> v),
      title = (case p_title p of None \<Rightarrow> title n | Some v \<Rightarrow> v),
      content = (case p_content p of None \<Rightarrow> content n | Some v \<Rightarrow> v),
      createdAt = (case p_createdAt p of None \<Rightarrow> createdAt n | Some v \<Rightarrow> v),
      updatedAt = (case p_updatedAt p of None \<Rightarrow> updatedAt n | Some v \<Rightarrow> v),
      pinned = (case p_pinned p of None \<Rightarrow> pinned n | Some v \<Rightarrow> Some v),
      color = (case p_color p of None \<Rightarrow> color n | Some v \<Rightarrow> Some v)\<rparr>"

text \<open>
  \<^verbatim>\<open>updateSelected\<close>. The guard \<^verbatim>\<open>if (!selectedId) return\<close> is JavaScript
  truthiness: it returns for \<^verbatim>\<open>null\<close> and for the empty string. \<open>ts\<close> is
  \<^verbatim>\<open>Date.now()\<close> (read once for each matching note; the model gives the reads of one
  call the same value).
\<close>

definition updateSelected :: "host \<Rightarrow> int \<Rightarrow> partial_note \<Rightarrow> app \<Rightarrow> app" where
  "updateSelected h ts p s =
     (case selectedId s of
        None \<Rightarrow> s
      | Some sid \<Rightarrow>
          if sid = [] then s
          else (let ns = map (\<lambda>n. if id' n = sid then (spread n p)\<lparr>updatedAt := Num ts\<rparr> else n)
                             (notes' s)
                in s\<lparr>notes' := ns, localStorage := saveNotes h ns (localStorage s)\<rparr>))"

text \<open>\<^verbatim>\<open>Array.prototype.findIndex\<close>: the first index whose element passes, or \<open>-1\<close>.\<close>

fun findIndex_from :: "int \<Rightarrow> ('a \<Rightarrow> bool) \<Rightarrow> 'a list \<Rightarrow> int" where
  "findIndex_from k P [] = -1"
| "findIndex_from k P (x # xs) = (if P x then k else findIndex_from (k + 1) P xs)"

definition findIndex :: "('a \<Rightarrow> bool) \<Rightarrow> 'a list \<Rightarrow> int" where
  "findIndex P xs = findIndex_from 0 P xs"

text \<open>An array read \<^verbatim>\<open>xs[i]\<close>: \<^verbatim>\<open>undefined\<close> (here \<open>None\<close>) out of range.\<close>

definition at_index :: "'a list \<Rightarrow> int \<Rightarrow> 'a option" where
  "at_index xs i = (if 0 \<le> i \<and> i < int (length xs) then Some (xs ! nat i) else None)"

text \<open>\<^verbatim>\<open>next.splice(idx, 1)\<close> for an index in range.\<close>

definition splice1 :: "'a list \<Rightarrow> int \<Rightarrow> 'a list" where
  "splice1 xs idx = take (nat idx) xs @ drop (Suc (nat idx)) xs"

text \<open>
  \<^verbatim>\<open>deleteSelected\<close>; the new selection is
  \<^verbatim>\<open>notes[idx]?.id ?? notes[idx - 1]?.id ?? null\<close>.
\<close>

definition deleteSelected :: "host \<Rightarrow> app \<Rightarrow> app" where
  "deleteSelected h s =
     (case selectedId s of
        None \<Rightarrow> s
      | Some sid \<Rightarrow>
          if sid = [] then s
          else (let idx = findIndex (\<lambda>n. id' n = sid) (notes' s)
                in if idx = -1 then s
                   else (let ns = splice1 (notes' s) idx;
                             sel = (case at_index ns idx of
                                      Some n \<Rightarrow> Some (id' n)
                                    | None \<Rightarrow>
                                        (case at_index ns (idx - 1) of
                                           Some n \<Rightarrow> Some (id' n)
                                         | None \<Rightarrow> None))
                         in s\<lparr>notes' := ns, selectedId := sel,
                              localStorage := saveNotes h ns (localStorage s)\<rparr>)))"

definition selectNote :: "string \<Rightarrow> app \<Rightarrow> app" where
  "selectNote i s = s\<lparr>selectedId := Some i\<rparr>"

text \<open>
  \<^verbatim>\<open>togglePin(id?)\<close>: the target is \<^verbatim>\<open>id ?? selectedId\<close>; \<^verbatim>\<open>!n.pinned\<close> is
  \<^verbatim>\<open>true\<close> for an absent field and for \<^verbatim>\<open>false\<close>.
\<close>

definition togglePin :: "host \<Rightarrow> int \<Rightarrow> string option \<Rightarrow> app \<Rightarrow> app" where
  "togglePin h ts i s =
     (case (case i of Some v \<Rightarrow> Some v | None \<Rightarrow> selectedId s) of
        None \<Rightarrow> s
      | Some targetId \<Rightarrow>
          if targetId = [] then s
          else (let ns = map (\<lambda>n. if id' n = targetId
                                   then n\<lparr>pinned := Some (pinned n \<noteq> Some True), updatedAt := Num ts\<rparr>
                                   else n)
                             (notes' s)
                in s\<lparr>notes' := ns, localStorage := saveNotes h ns (localStorage s)\<rparr>))"

text \<open>\<^verbatim>\<open>setColor(color: string | null)\<close>.\<close>

definition setColor :: "host \<Rightarrow> int \<Rightarrow> string option \<Rightarrow> app \<Rightarrow> app" where
  "setColor h ts c s =
     (case selectedId s of
        None \<Rightarrow> s
      | Some sid \<Rightarrow>
          if sid = [] then s
          else (let ns = map (\<lambda>n. if id' n = sid then n\<lparr>color := Some c, updatedAt := Num ts\<rparr> else n)
                             (notes' s)
                in s\<lparr>notes' := ns, localStorage := saveNotes h ns (localStorage s)\<rparr>))"

subsection \<open>The run of a session\<close>

text \<open>
  One user event: the handler it calls, with what the handler reads from the clock and
  the random source.
\<close>

datatype op =
  Create int string
| Update int partial_note
| Delete
| Select string
| TogglePin int "string option"
| SetColor int "string option"

fun step :: "host \<Rightarrow> app \<Rightarrow> op \<Rightarrow> app" where
  "step h s (Create ts uuid) = createNote h ts uuid s"
| "step h s (Update ts p) = updateSelected h ts p s"
| "step h s Delete = deleteSelected h s"
| "step h s (Select i) = selectNote i s"
| "step h s (TogglePin ts i) = togglePin h ts i s"
| "step h s (SetColor ts c) = setColor h ts c s"

fun run :: "host \<Rightarrow> app \<Rightarrow> op list \<Rightarrow> app" where
  "run h s [] = s"
| "run h s (e # es) = run h (step h s e) es"

text \<open>
  The events the page's markup can raise: it calls \<^verbatim>\<open>selectNote(n.id)\<close> for a note
  \<open>n\<close> of the list on screen only, and \<^verbatim>\<open>updateSelected\<close> with
  \<^verbatim>\<open>{ title: value }\<close> or \<^verbatim>\<open>{ content: value }\<close> only. \<open>ui_event\<close> is the part of
  this that the selection depends on: a selected id is an id of the collection, and an
  update supplies no \<^verbatim>\<open>id\<close>.
\<close>

fun ui_event :: "app \<Rightarrow> op \<Rightarrow> bool" where
  "ui_event s (Select i) = (\<exists>n\<in>set (notes' s). id' n = i)"
| "ui_event s (Update ts p) = (p_id p = None)"
| "ui_event s e = True"

fun ui_run :: "host \<Rightarrow> app \<Rightarrow> op list \<Rightarrow> bool" where
  "ui_run h s [] = True"
| "ui_run h s (e # es) = (ui_event s e \<and> ui_run h (step h s e) es)"

text \<open>The selection refers to a note of the collection, or is \<^verbatim>\<open>null\<close>.\<close>

definition selection_ok :: "app \<Rightarrow> bool" where
  "selection_ok s =
     (case selectedId s of None \<Rightarrow> True | Some i \<Rightarrow> \<exists>n\<in>set (notes' s). id' n = i)"

subsection \<open>Query engine\<close>

text \<open>
  Strings are lists of 8-bit characters, read as the code points 0 to 255.
  \<^verbatim>\<open>toLowerCase\<close> maps the capital letters of this range, A to Z (65 to 90) and the
  accented capitals 192 to 222 without the multiplication sign 215, to the letter 32
  places on; \<^verbatim>\<open>trim\<close> removes the white space of this range (tab, line feed,
  vertical tab, form feed, carriage return, space, no-break space) from both ends.
\<close>

definition toLowerCase_char :: "char \<Rightarrow> char" where
  "toLowerCase_char c =
     (let k = (of_char c :: nat)
      in if (65 \<le> k \<and> k \<le> 90) \<or> (192 \<le> k \<and> k \<le> 222 \<and> k \<noteq> 215)
         then char_of (k + 32) else c)"

definition toLowerCase :: "string \<Rightarrow> string" where
  "toLowerCase s = map toLowerCase_char s"

definition isWhiteSpace :: "char \<Rightarrow> bool" where
  "isWhiteSpace c =
     (c \<in> set [CHR 0x09, CHR 0x0A, CHR 0x0B, CHR 0x0C, CHR 0x0D, CHR 0x20, CHR 0xA0])"

definition trim :: "string \<Rightarrow> string" where
  "trim s = rev (dropWhile isWhiteSpace (rev (dropWhile isWhiteSpace s)))"

definition normalize' :: "string \<Rightarrow> string" where
  "normalize' s = trim (toLowerCase s)"

text \<open>\<^verbatim>\<open>matches\<close>; \<^verbatim>\<open>t.includes(qq)\<close> is \<open>sublist qq t\<close> (a contiguous part).\<close>

definition matches :: "Note \<Rightarrow> string \<Rightarrow> bool" where
  "matches n q =
     (if q = [] then True
      else (let t = normalize' (title n);
                c = normalize' (content n);
                qq = normalize' q
            in sublist qq t \<or> sublist qq c))"

text \<open>
  The comparators of \<^verbatim>\<open>sorted\<close>:
  \<^verbatim>\<open>Number(b.pinned) - Number(a.pinned) || <second key>\<close>.
  The operands of a difference are numbers with \<^verbatim>\<open>NaN\<close> as \<open>None\<close>:
  \<^verbatim>\<open>Number(undefined)\<close> is \<^verbatim>\<open>NaN\<close>, and in a difference \<^verbatim>\<open>null\<close> counts as
  \<open>0\<close>. A difference with a \<^verbatim>\<open>NaN\<close> operand is \<^verbatim>\<open>NaN\<close>, and \<^verbatim>\<open>x || y\<close> is
  \<open>y\<close> when \<open>x\<close> is \<^verbatim>\<open>NaN\<close> or \<open>0\<close>.
\<close>

definition ToNumber :: "number \<Rightarrow> int option" where
  "ToNumber v = (case v of Num i \<Rightarrow> Some i | NaN \<Rightarrow> None | Null \<Rightarrow> Some 0)"

definition Number_bool :: "bool option \<Rightarrow> int option" where
  "Number_bool b = (case b of None \<Rightarrow> None | Some v \<Rightarrow> Some (if v then 1 else 0))"

definition minus_number :: "int option \<Rightarrow> int option \<Rightarrow> int option" where
  "minus_number x y =
     (case x of None \<Rightarrow> None | Some a \<Rightarrow> (case y of None \<Rightarrow> None | Some b \<Rightarrow> Some (a - b)))"

definition or_number :: "int option \<Rightarrow> int option \<Rightarrow> int option" where
  "or_number x y = (case x of None \<Rightarrow> y | Some v \<Rightarrow> if v = 0 then y else Some v)"

definition compare_notes :: "host \<Rightarrow> sort_mode \<Rightarrow> Note \<Rightarrow> Note \<Rightarrow> int option" where
  "compare_notes h m a b =
     or_number (minus_number (Number_bool (pinned b)) (Number_bool (pinned a)))
       (case m of
          Updated \<Rightarrow> minus_number (ToNumber (updatedAt b)) (ToNumber (updatedAt a))
        | Created \<Rightarrow> minus_number (ToNumber (createdAt b)) (ToNumber (createdAt a))
        | Alpha \<Rightarrow> Some (collator_compare h (title a) (title b)))"

text \<open>
  \<^verbatim>\<open>Array.prototype.sort\<close> with a comparator. The sort is stable; where the
  comparator is a consistent ordering its result is the one list computed here, by
  insertion from the right before the first element that does not compare smaller.
  Where the comparator is not consistent the language leaves the order to the engine;
  the model keeps the same insertion. The sort reads a comparator result of
  \<^verbatim>\<open>NaN\<close> as \<open>0\<close> (\<open>SortCompare\<close>).
\<close>

definition SortCompare :: "('a \<Rightarrow> 'a \<Rightarrow> int option) \<Rightarrow> 'a \<Rightarrow> 'a \<Rightarrow> int" where
  "SortCompare comparefn x y = (case comparefn x y of None \<Rightarrow> 0 | Some v \<Rightarrow> v)"

fun insert_cmp :: "('a \<Rightarrow> 'a \<Rightarrow> int) \<Rightarrow> 'a \<Rightarrow> 'a list \<Rightarrow> 'a list" where
  "insert_cmp cmp x [] = [x]"
| "insert_cmp cmp x (y # ys) = (if cmp x y \<le> 0 then x # y # ys else y # insert_cmp cmp x ys)"

definition array_sort :: "('a \<Rightarrow> 'a \<Rightarrow> int) \<Rightarrow> 'a list \<Rightarrow> 'a list" where
  "array_sort cmp xs = foldr (insert_cmp cmp) xs []"

definition sorted_notes :: "host \<Rightarrow> sort_mode \<Rightarrow> Note list \<Rightarrow> Note list" where
  "sorted_notes h m list = array_sort (SortCompare (compare_notes h m)) list"

text \<open>
  The derived view
  \<^verbatim>\<open>sorted(notes.filter((n) => matches(n, query) && (!showPinnedOnly || n.pinned)))\<close>
  and the selected note \<^verbatim>\<open>notes.find((n) => n.id === selectedId) ?? null\<close>.
\<close>

definition filtered :: "host \<Rightarrow> app \<Rightarrow> Note list" where
  "filtered h s =
     sorted_notes h (sortBy s)
       (filter (\<lambda>n. matches n (query s) \<and> (\<not> showPinnedOnly s \<or> pinned n = Some True))
          (notes' s))"

definition selected :: "app \<Rightarrow> Note option" where
  "selected s =
     (case selectedId s of None \<Rightarrow> None | Some i \<Rightarrow> find (\<lambda>n. id' n = i) (notes' s))"

subsection \<open>\<^verbatim>\<open>JSON.stringify\<close> and \<^verbatim>\<open>JSON.parse\<close>\<close>

text \<open>
  The two functions as the language standard defines them, on the values the model has.
  A JSON value is \<^verbatim>\<open>null\<close>, a boolean, an integer, a string of 8-bit characters,
  an array, or an object as the list of its members in order.
\<close>

datatype json =
  JNull
| JBool bool
| JNumber int
| JString string
| JArray "json list"
| JObject "(string \<times> json) list"

text \<open>
  What \<^verbatim>\<open>JSON.stringify\<close> makes of a note: an object with the fields in the order
  in which \<^verbatim>\<open>createNote\<close> writes them (a record has no order of fields, and the
  order makes no difference to what \<^verbatim>\<open>JSON.parse\<close> reads back), without the
  fields that are absent, and with \<^verbatim>\<open>null\<close> for a number that is \<^verbatim>\<open>NaN\<close>.
\<close>

definition number_to_json :: "number \<Rightarrow> json" where
  "number_to_json v = (case v of Num i \<Rightarrow> JNumber i | NaN \<Rightarrow> JNull | Null \<Rightarrow> JNull)"

definition note_to_json :: "Note \<Rightarrow> json" where
  "note_to_json n =
     JObject
       ([(''id'', JString (id' n)),
         (''title'', JString (title n)),
         (''content'', JString (content n)),
         (''createdAt'', number_to_json (createdAt n)),
         (''updatedAt'', number_to_json (updatedAt n))] @
        (case pinned n of None \<Rightarrow> [] | Some b \<Rightarrow> [(''pinned'', JBool b)]) @
        (case color n of
           None \<Rightarrow> []
         | Some None \<Rightarrow> [(''color'', JNull)]
         | Some (Some c) \<Rightarrow> [(''color'', JString c)]))"

text \<open>
  The text of a JSON value, without white space: an integer in decimal digits (the
  language writes an integer from \<open>10^21\<close> on with an exponent, which reads back as
  the same number; the model writes all its digits), a
  string between double quotes (character \<open>0x22\<close>) with a backslash (\<open>0x5C\<close>) before
  a quote or a backslash, the short escapes for backspace, form feed, line feed,
  carriage return and tab, and \<^verbatim>\<open>\u00XX\<close> for the other characters below \<open>0x20\<close>.
\<close>

definition digit_char :: "nat \<Rightarrow> char" where
  "digit_char d = ''0123456789'' ! d"

function digits :: "nat \<Rightarrow> string" where
  "digits n = (if n < 10 then [digit_char n] else digits (n div 10) @ [digit_char (n mod 10)])"
  by pat_completeness auto
termination
  by (relation "measure id") auto

declare digits.simps [simp del]

definition hex_char :: "nat \<Rightarrow> char" where
  "hex_char d = ''0123456789abcdef'' ! d"

definition quote_char :: "char \<Rightarrow> string" where
  "quote_char c =
     (if c = CHR 0x22 then [CHR 0x5C, CHR 0x22]
      else if c = CHR 0x5C then [CHR 0x5C, CHR 0x5C]
      else if c = CHR 0x08 then [CHR 0x5C, CHR ''b'']
      else if c = CHR 0x0C then [CHR 0x5C, CHR ''f'']
      else if c = CHR 0x0A then [CHR 0x5C, CHR ''n'']
      else if c = CHR 0x0D then [CHR 0x5C, CHR ''r'']
      else if c = CHR 0x09 then [CHR 0x5C, CHR ''t'']
      else if (of_char c :: nat) < 32 then
        [CHR 0x5C, CHR ''u'', CHR ''0'', CHR ''0'',
         hex_char ((of_char c :: nat) div 16), hex_char ((of_char c :: nat) mod 16)]
      else [c])"

definition QuoteJSONString :: "string \<Rightarrow> string" where
  "QuoteJSONString v = [CHR 0x22] @ concat (map quote_char v) @ [CHR 0x22]"

fun print_json :: "json \<Rightarrow> string"
  and print_elements :: "json list \<Rightarrow> string"
  and print_members :: "(string \<times> json) list \<Rightarrow> string" where
  "print_json JNull = ''null''"
| "print_json (JBool b) = (if b then ''true'' else ''false'')"
| "print_json (JNumber i) = (if i < 0 then ''-'' else []) @ digits (nat \<bar>i\<bar>)"
| "print_json (JString v) = QuoteJSONString v"
| "print_json (JArray vs) = ''['' @ print_elements vs @ '']''"
| "print_json (JObject ms) = ''{'' @ print_members ms @ ''}''"
| "print_elements [] = []"
| "print_elements [v] = print_json v"
| "print_elements (v # w # vs) = print_json v @ '','' @ print_elements (w # vs)"
| "print_members [] = []"
| "print_members [(k, v)] = QuoteJSONString k @ '':'' @ print_json v"
| "print_members ((k, v) # m # ms) =
     QuoteJSONString k @ '':'' @ print_json v @ '','' @ print_members (m # ms)"

definition JSON_stringify_std :: "Note list \<Rightarrow> string" where
  "JSON_stringify_std ns = print_json (JArray (map note_to_json ns))"

text \<open>
  Reading a text: white space is skipped between tokens; a number is an optional minus
  sign and digits without a leading zero; a fraction, an exponent, and an escape
  \<^verbatim>\<open>\uXXXX\<close> above \<open>0x00FF\<close> denote values that the model does not have and are
  refused like malformed text. The first argument of the three parsing functions
  bounds the depth of the recursion; \<open>parse_json\<close> starts it above the length of the
  text, which is enough for every text that the printer writes (shown below).
\<close>

definition is_ws :: "char \<Rightarrow> bool" where
  "is_ws c = (c \<in> set [CHR 0x20, CHR 0x09, CHR 0x0A, CHR 0x0D])"

definition skip_ws :: "string \<Rightarrow> string" where
  "skip_ws s = dropWhile is_ws s"

definition is_digit :: "char \<Rightarrow> bool" where
  "is_digit c = (c \<in> set ''0123456789'')"

definition digit_val :: "char \<Rightarrow> nat" where
  "digit_val c =
     (case map_of (zip ''0123456789'' [0, 1, 2, 3, 4, 5, 6, 7, 8, 9]) c of
        None \<Rightarrow> 0
      | Some d \<Rightarrow> d)"

definition digits_val :: "string \<Rightarrow> nat" where
  "digits_val ds = foldl (\<lambda>a d. 10 * a + digit_val d) 0 ds"

definition hex_val :: "char \<Rightarrow> nat option" where
  "hex_val c =
     map_of (zip ''0123456789abcdefABCDEF''
       [0, 1, 2, 3, 4, 5, 6, 7, 8, 9, 10, 11, 12, 13, 14, 15, 10, 11, 12, 13, 14, 15]) c"

definition unescape :: "char \<Rightarrow> char option" where
  "unescape e =
     map_of [(CHR 0x22, CHR 0x22), (CHR 0x5C, CHR 0x5C), (CHR ''/'', CHR ''/''),
             (CHR ''b'', CHR 0x08), (CHR ''f'', CHR 0x0C), (CHR ''n'', CHR 0x0A),
             (CHR ''r'', CHR 0x0D), (CHR ''t'', CHR 0x09)] e"

definition read_hex4 :: "char \<Rightarrow> char \<Rightarrow> char \<Rightarrow> char \<Rightarrow> char option" where
  "read_hex4 a b c d =
     (case (hex_val a, hex_val b, hex_val c, hex_val d) of
        (Some x, Some y, Some z, Some w) \<Rightarrow>
          if x = 0 \<and> y = 0 then Some (char_of (16 * z + w)) else None
      | _ \<Rightarrow> None)"

fun read_chars :: "string \<Rightarrow> (string \<times> string) option" where
  "read_chars [] = None"
| "read_chars (c # cs) =
     (if c = CHR 0x22 then Some ([], cs)
      else if c = CHR 0x5C then
        (case cs of
           [] \<Rightarrow> None
         | e # es \<Rightarrow>
             if e = CHR ''u'' then
               (case es of
                  a # b # c' # d # r \<Rightarrow>
                    (case read_hex4 a b c' d of
                       None \<Rightarrow> None
                     | Some ch \<Rightarrow> map_option (\<lambda>(v, t). (ch # v, t)) (read_chars r))
                | _ \<Rightarrow> None)
             else
               (case unescape e of
                  None \<Rightarrow> None
                | Some ch \<Rightarrow> map_option (\<lambda>(v, t). (ch # v, t)) (read_chars es)))
      else if (of_char c :: nat) < 32 then None
      else map_option (\<lambda>(v, t). (c # v, t)) (read_chars cs))"

definition read_number :: "string \<Rightarrow> (json \<times> string) option" where
  "read_number s =
     (let neg = (case s of [] \<Rightarrow> False | c # _ \<Rightarrow> c = CHR ''-'');
          t = (if neg then tl s else s);
          ds = takeWhile is_digit t;
          r = dropWhile is_digit t
      in if ds = [] then None
         else if hd ds = CHR ''0'' \<and> tl ds \<noteq> [] then None
         else if (case r of [] \<Rightarrow> False | c # _ \<Rightarrow> c \<in> set ''.eE'') then None
         else Some (JNumber (if neg then - int (digits_val ds) else int (digits_val ds)), r))"

fun parse_value :: "nat \<Rightarrow> string \<Rightarrow> (json \<times> string) option"
  and parse_elements :: "nat \<Rightarrow> string \<Rightarrow> (json list \<times> string) option"
  and parse_members :: "nat \<Rightarrow> string \<Rightarrow> ((string \<times> json) list \<times> string) option" where
  "parse_value 0 s = None"
| "parse_value (Suc k) s =
     (case skip_ws s of
        [] \<Rightarrow> None
      | c # r \<Rightarrow>
          if c = CHR ''['' then
            (case skip_ws r of
               [] \<Rightarrow> None
             | d # r' \<Rightarrow>
                 if d = CHR '']'' then Some (JArray [], r')
                 else map_option (\<lambda>(vs, t). (JArray vs, t)) (parse_elements k r))
          else if c = CHR ''{'' then
            (case skip_ws r of
               [] \<Rightarrow> None
             | d # r' \<Rightarrow>
                 if d = CHR ''}'' then Some (JObject [], r')
                 else map_option (\<lambda>(ms, t). (JObject ms, t)) (parse_members k r))
          else if c = CHR 0x22 then map_option (\<lambda>(v, t). (JString v, t)) (read_chars r)
          else if take 4 (c # r) = ''null'' then Some (JNull, drop 3 r)
          else if take 4 (c # r) = ''true'' then Some (JBool True, drop 3 r)
          else if take 5 (c # r) = ''false'' then Some (JBool False, drop 4 r)
          else read_number (c # r))"
| "parse_elements 0 s = None"
| "parse_elements (Suc k) s =
     (case parse_value k s of
        None \<Rightarrow> None
      | Some (v, r) \<Rightarrow>
          (case skip_ws r of
             [] \<Rightarrow> None
           | c # r' \<Rightarrow>
               if c = CHR '','' then map_option (\<lambda>(vs, t). (v # vs, t)) (parse_elements k r')
               else if c = CHR '']'' then Some ([v], r')
               else None))"
| "parse_members 0 s = None"
| "parse_members (Suc k) s =
     (case skip_ws s of
        [] \<Rightarrow> None
      | q # r \<Rightarrow>
          if q \<noteq> CHR 0x22 then None
          else
            (case read_chars r of
               None \<Rightarrow> None
             | Some (key, r1) \<Rightarrow>
                 (case skip_ws r1 of
                    [] \<Rightarrow> None
                  | c # r2 \<Rightarrow>
                      if c \<noteq> CHR '':'' then None
                      else
                        (case parse_value k r2 of
                           None \<Rightarrow> None
                         | Some (v, r3) \<Rightarrow>
                             (case skip_ws r3 of
                                [] \<Rightarrow> None
                              | d # r4 \<Rightarrow>
                                  if d = CHR '','' then
                                    map_option (\<lambda>(ms, t). ((key, v) # ms, t)) (parse_members k r4)
                                  else if d = CHR ''}'' then Some ([(key, v)], r4)
                                  else None)))))"

definition parse_json :: "string \<Rightarrow> json option" where
  "parse_json s =
     (case parse_value (Suc (length s)) s of
        None \<Rightarrow> None
      | Some (v, r) \<Rightarrow> if skip_ws r = [] then Some v else None)"

text \<open>
  The parsed value seen through the cast to \<^verbatim>\<open>Note[]\<close>. A field of an object is
  its last member of that name. An array with an element that is not a note within
  the types of the model (a missing \<^verbatim>\<open>id\<close>, a number where a string should be)
  has no counterpart in the model and is refused like malformed text; a \<^verbatim>\<open>null\<close>
  time stamp is read as it is.
\<close>

definition json_to_number :: "json \<Rightarrow> number option" where
  "json_to_number v = (case v of JNumber i \<Rightarrow> Some (Num i) | JNull \<Rightarrow> Some Null | _ \<Rightarrow> None)"

definition json_to_string :: "json \<Rightarrow> string option" where
  "json_to_string v = (case v of JString t \<Rightarrow> Some t | _ \<Rightarrow> None)"

definition json_to_pinned :: "json option \<Rightarrow> bool option option" where
  "json_to_pinned v =
     (case v of None \<Rightarrow> Some None | Some (JBool b) \<Rightarrow> Some (Some b) | Some _ \<Rightarrow> None)"

definition json_to_color :: "json option \<Rightarrow> string option option option" where
  "json_to_color v =
     (case v of
        None \<Rightarrow> Some None
      | Some JNull \<Rightarrow> Some (Some None)
      | Some (JString c) \<Rightarrow> Some (Some (Some c))
      | Some _ \<Rightarrow> None)"

definition json_to_note :: "json \<Rightarrow> Note option" where
  "json_to_note v =
     (case v of
        JObject ms \<Rightarrow>
          (let field = map_of (rev ms) in
           case Option.bind (field ''id'') json_to_string of None \<Rightarrow> None | Some i \<Rightarrow>
           case Option.bind (field ''title'') json_to_string of None \<Rightarrow> None | Some t \<Rightarrow>
           case Option.bind (field ''content'') json_to_string of None \<Rightarrow> None | Some c \<Rightarrow>
           case Option.bind (field ''createdAt'') json_to_number of None \<Rightarrow> None | Some ca \<Rightarrow>
           case Option.bind (field ''updatedAt'') json_to_number of None \<Rightarrow> None | Some ua \<Rightarrow>
           case json_to_pinned (field ''pinned'') of None \<Rightarrow> None | Some pn \<Rightarrow>
           case json_to_color (field ''color'') of None \<Rightarrow> None | Some cl \<Rightarrow>
             Some \<lparr>id' = i, title = t, content = c, createdAt = ca, updatedAt = ua,
                   pinned = pn, color = cl\<rparr>)
      | _ \<Rightarrow> None)"

definition JSON_parse_std :: "string \<Rightarrow> parsed option" where
  "JSON_parse_std s =
     (case parse_json s of
        None \<Rightarrow> None
      | Some (JArray vs) \<Rightarrow> map_option IsArray (those (map json_to_note vs))
      | Some _ \<Rightarrow> Some NotArray)"

text \<open>What can follow a value in a text: nothing, a comma or a closing bracket.\<close>

definition delim :: "string \<Rightarrow> bool" where
  "delim r = (case r of [] \<Rightarrow> True | c # _ \<Rightarrow> c \<in> set '',]}'')"

text \<open>
  What a save followed by a load makes of a note: a time stamp that is \<^verbatim>\<open>NaN\<close>
  comes back as \<^verbatim>\<open>null\<close>.
\<close>

definition reloaded_number :: "number \<Rightarrow> number" where
  "reloaded_number v = (case v of NaN \<Rightarrow> Null | _ \<Rightarrow> v)"

definition reloaded :: "Note \<Rightarrow> Note" where
  "reloaded n =
     n\<lparr>createdAt := reloaded_number (createdAt n), updatedAt := reloaded_number (updatedAt n)\<rparr>"

subsection \<open>A host to run the model on\<close>

text \<open>
  A concrete host for the closed examples below: a browser with the JSON functions of
  the standard and a collator that compares titles after lower-casing, character by
  character.
\<close>

fun compare_strings :: "string \<Rightarrow> string \<Rightarrow> int" where
  "compare_strings [] [] = 0"
| "compare_strings [] (y # ys) = -1"
| "compare_strings (x # xs) [] = 1"
| "compare_strings (x # xs) (y # ys) =
     (if (of_char x :: nat) < of_char y then -1
      else if (of_char y :: nat) < of_char x then 1
      else compare_strings xs ys)"

definition the_host :: host where
  "the_host =
     \<lparr>browser = True,
      JSON_parse = JSON_parse_std,
      JSON_stringify = JSON_stringify_std,
      collator_compare = (\<lambda>a b. compare_strings (toLowerCase a) (toLowerCase b))\<rparr>"

definition empty_storage :: storage where
  "empty_storage = \<lparr>items = Map.empty, setItem_calls = 0\<rparr>"

definition empty_app :: app where
  "empty_app =
     \<lparr>notes' = [], selectedId = None, query = [], sortBy = Updated,
      showPinnedOnly = False, localStorage = empty_storage\<rparr>"

text \<open>
  The state in which the page starts on an empty store in that browser (the empty
  collection has been saved), and the same host outside a browser.
\<close>

definition fresh_app :: app where
  "fresh_app = empty_app\<lparr>localStorage := setItem empty_storage STORAGE_KEY ''[]''\<rparr>"

definition ssr_host :: host where
  "ssr_host = the_host\<lparr>browser := False\<rparr>"

text \<open>Three notes for the examples.\<close>

definition note_A :: Note where
  "note_A = \<lparr>id' = ''a'', title = ''My TODO list'', content = ''milk'', createdAt = Num 1,
             updatedAt = Num 100, pinned = Some False, color = Some None\<rparr>"

definition note_B :: Note where
  "note_B = \<lparr>id' = ''b'', title = ''Apple'', content = [], createdAt = Num 2,
             updatedAt = Num 50, pinned = Some True, color = Some (Some ''#FFF9C4'')\<rparr>"

definition note_X :: Note where
  "note_X = \<lparr>id' = ''x'', title = ''banana'', content = ''old'', createdAt = Num 3,
             updatedAt = Num 75, pinned = None, color = None\<rparr>"

text \<open>
  A state whose only note has the empty string as its id, and is selected; and three
  arguments of \<^verbatim>\<open>updateSelected\<close>: \<^verbatim>\<open>{ title: v }\<close>, \<^verbatim>\<open>{ id: v }\<close> and
  \<^verbatim>\<open>{ createdAt: v }\<close>. And the comparison \<^verbatim>\<open>a <= b\<close> of two numbers, false when
  one of them is \<^verbatim>\<open>NaN\<close>.
\<close>

definition blank_app :: app where
  "blank_app = empty_app\<lparr>notes' := [note_A\<lparr>id' := []\<rparr>], selectedId := Some []\<rparr>"

definition only_title :: "string \<Rightarrow> partial_note" where
  "only_title v = \<lparr>p_id = None, p_title = Some v, p_content = None, p_createdAt = None,
                    p_updatedAt = None, p_pinned = None, p_color = None\<rparr>"

definition only_id :: "string \<Rightarrow> partial_note" where
  "only_id v = \<lparr>p_id = Some v, p_title = None, p_content = None, p_createdAt = None,
                 p_updatedAt = None, p_pinned = None, p_color = None\<rparr>"

definition only_createdAt :: "number \<Rightarrow> partial_note" where
  "only_createdAt v = \<lparr>p_id = None, p_title = None, p_content = None, p_createdAt = Some v,
                        p_updatedAt = None, p_pinned = None, p_color = None\<rparr>"

definition number_le :: "number \<Rightarrow> number \<Rightarrow> bool" where
  "number_le a b =
     (case ToNumber a of
        None \<Rightarrow> False
      | Some x \<Rightarrow> (case ToNumber b of None \<Rightarrow> False | Some y \<Rightarrow> x \<le> y))"

text \<open>
  A string without white space at either end, and a state for the examples of the
  derived view: three notes, the query \<open>Todo\<close> between two spaces, pinned notes only.
\<close>

definition trimmed :: "string \<Rightarrow> bool" where
  "trimmed q = (q = [] \<or> (\<not> isWhiteSpace (hd q) \<and> \<not> isWhiteSpace (last q)))"

definition todo_app :: app where
  "todo_app = empty_app\<lparr>notes' := [note_A, note_B, note_X], query := '' Todo '',
                         showPinnedOnly := True\<rparr>"

text \<open>
  The store holds the serialised collection under the storage key. And two sessions
  for the examples, the second with an update that sets \<^verbatim>\<open>createdAt\<close> to
  \<^verbatim>\<open>NaN\<close>.
\<close>

definition persisted :: "host \<Rightarrow> app \<Rightarrow> bool" where
  "persisted h s = (getItem (localStorage s) STORAGE_KEY = Some (JSON_stringify h (notes' s)))"

definition nan_session :: "op list" where
  "nan_session = [Create 1 ''u1'', Update 2 (only_createdAt NaN)]"

definition session :: "op list" where
  "session = [Create 1 ''u1'', Update 2 (only_title ''x''), Create 3 ''u2'',
              TogglePin 4 None, Delete]"

text \<open>Pinned first: no note with \<^verbatim>\<open>pinned\<close> false stands before one with \<^verbatim>\<open>pinned\<close> true.\<close>

definition pin_first :: "Note list \<Rightarrow> bool" where
  "pin_first xs = sorted_wrt (\<lambda>a b. \<not> (pinned a = Some False \<and> pinned b = Some True)) xs"

section \<open>Properties\<close>

subsection \<open>Operations whose target is missing\<close>

lemma map_unchanged: "\<forall>n\<in>set xs. \<not> P n \<Longrightarrow> map (\<lambda>n. if P n then f n else n) xs = xs"
  by (induction xs) auto

lemma findIndex_from_none: "\<forall>n\<in>set xs. \<not> P n \<Longrightarrow> findIndex_from k P xs = -1"
  by (induction xs arbitrary: k) auto

text \<open>
  Claim C9. When no note of the collection has the target id, \<^verbatim>\<open>updateSelected\<close>,
  \<^verbatim>\<open>deleteSelected\<close>, \<^verbatim>\<open>setColor\<close> and \<^verbatim>\<open>togglePin\<close> leave the collection and the
  selection as they were and raise nothing. The first three, and \<^verbatim>\<open>togglePin()\<close>
  without argument, take the selection as their target; \<^verbatim>\<open>togglePin(id)\<close> takes
  its argument.
\<close>

theorem absent_target_is_noop:
  assumes "target \<notin> set (map id' (notes' s))"
  shows "(selectedId s = Some target \<longrightarrow>
            notes' (updateSelected h ts p s) = notes' s \<and>
            selectedId (updateSelected h ts p s) = selectedId s \<and>
            notes' (deleteSelected h s) = notes' s \<and>
            selectedId (deleteSelected h s) = selectedId s \<and>
            notes' (setColor h ts c s) = notes' s \<and>
            selectedId (setColor h ts c s) = selectedId s \<and>
            notes' (togglePin h ts None s) = notes' s \<and>
            selectedId (togglePin h ts None s) = selectedId s) \<and>
         notes' (togglePin h ts (Some target) s) = notes' s \<and>
         selectedId (togglePin h ts (Some target) s) = selectedId s"
proof -
  from assms have miss: "\<forall>n\<in>set (notes' s). \<not> id' n = target"
    by auto
  have upd: "\<And>f. map (\<lambda>n. if id' n = target then f n else n) (notes' s) = notes' s"
    using miss by (rule map_unchanged)
  have idx: "findIndex (\<lambda>n. id' n = target) (notes' s) = -1"
    unfolding findIndex_def using miss by (rule findIndex_from_none)
  show ?thesis
    by (simp add: updateSelected_def deleteSelected_def setColor_def togglePin_def Let_def upd idx)
qed

text \<open>An instance: one note \<open>a\<close>, and the stale id \<open>zz\<close> as the target.\<close>

theorem absent_target_is_noop_witness:
  "''zz'' \<notin> set (map id' [note_A]) \<and>
   notes' (updateSelected the_host 7
     \<lparr>p_id = None, p_title = Some ''x'', p_content = None, p_createdAt = None,
      p_updatedAt = None, p_pinned = None, p_color = None\<rparr>
     (empty_app\<lparr>notes' := [note_A], selectedId := Some ''zz''\<rparr>)) = [note_A] \<and>
   notes' (deleteSelected the_host (empty_app\<lparr>notes' := [note_A], selectedId := Some ''zz''\<rparr>)) = [note_A] \<and>
   selectedId (deleteSelected the_host (empty_app\<lparr>notes' := [note_A], selectedId := Some ''zz''\<rparr>)) = Some ''zz'' \<and>
   notes' (setColor the_host 7 None (empty_app\<lparr>notes' := [note_A], selectedId := Some ''zz''\<rparr>)) = [note_A] \<and>
   notes' (togglePin the_host 7 None (empty_app\<lparr>notes' := [note_A], selectedId := Some ''zz''\<rparr>)) = [note_A] \<and>
   notes' (togglePin the_host 7 (Some ''zz'') (empty_app\<lparr>notes' := [note_A], selectedId := Some ''zz''\<rparr>)) = [note_A]"
  using absent_target_is_noop [of "''zz''" "empty_app\<lparr>notes' := [note_A], selectedId := Some ''zz''\<rparr>" the_host 7
     "\<lparr>p_id = None, p_title = Some ''x'', p_content = None, p_createdAt = None,
      p_updatedAt = None, p_pinned = None, p_color = None\<rparr>" None]
  by (simp add: note_A_def)

text \<open>
  Claim C10. With \<^verbatim>\<open>selectedId\<close> equal to \<^verbatim>\<open>null\<close>, each of
  \<^verbatim>\<open>updateSelected\<close>, \<^verbatim>\<open>deleteSelected\<close>, \<^verbatim>\<open>setColor\<close> and \<^verbatim>\<open>togglePin()\<close>
  without an id returns the state it was given: the collection, the selection and the
  store, with its count of \<^verbatim>\<open>setItem\<close> calls, are untouched.
\<close>

theorem null_selection_returns_at_once:
  "selectedId s = None \<Longrightarrow>
     updateSelected h ts p s = s \<and> deleteSelected h s = s \<and>
     setColor h ts c s = s \<and> togglePin h ts None s = s"
  by (simp add: updateSelected_def deleteSelected_def setColor_def togglePin_def)

text \<open>An instance: the empty application, whose store has seen no write.\<close>

theorem null_selection_returns_at_once_witness:
  "selectedId empty_app = None \<and>
   updateSelected the_host 7
     \<lparr>p_id = None, p_title = Some ''x'', p_content = None, p_createdAt = None,
      p_updatedAt = None, p_pinned = None, p_color = None\<rparr> empty_app = empty_app \<and>
   deleteSelected the_host empty_app = empty_app \<and>
   setColor the_host 7 (Some ''#E3F2FD'') empty_app = empty_app \<and>
   togglePin the_host 7 None empty_app = empty_app \<and>
   setItem_calls (localStorage (togglePin the_host 7 None empty_app)) = 0"
proof -
  have sel: "selectedId empty_app = None"
    by (simp add: empty_app_def)
  show ?thesis
    using sel null_selection_returns_at_once [OF sel, of the_host 7 _ "Some ''#E3F2FD''"]
    by (simp add: empty_app_def empty_storage_def)
qed

subsection \<open>Creating a note\<close>

text \<open>
  Claim C1, as the code has it. \<^verbatim>\<open>createNote\<close> builds a note with the title
  \<open>Untitled\<close> (not the empty string), empty content, \<^verbatim>\<open>pinned\<close> false,
  \<^verbatim>\<open>color\<close> null and both time stamps equal to the clock reading; it puts the note
  in front of the collection, selects its id and calls \<^verbatim>\<open>saveNotes\<close> on the new
  collection, which in a browser stores the serialised collection under the storage key.
\<close>

theorem createNote_builds_untitled_note:
  "notes' (createNote h ts uuid s) =
     \<lparr>id' = uuid, title = ''Untitled'', content = [], createdAt = Num ts, updatedAt = Num ts,
      pinned = Some False, color = Some None\<rparr> # notes' s \<and>
   createdAt (hd (notes' (createNote h ts uuid s))) = updatedAt (hd (notes' (createNote h ts uuid s))) \<and>
   selectedId (createNote h ts uuid s) = Some uuid \<and>
   localStorage (createNote h ts uuid s) =
     saveNotes h (notes' (createNote h ts uuid s)) (localStorage s) \<and>
   (browser h \<longrightarrow>
      getItem (localStorage (createNote h ts uuid s)) STORAGE_KEY =
        Some (JSON_stringify h (notes' (createNote h ts uuid s))))"
  by (simp add: createNote_def Let_def saveNotes_def setItem_def getItem_def)

text \<open>An instance: the first note of an empty application, in the browser of the examples.\<close>

theorem createNote_builds_untitled_note_witness:
  "browser the_host \<and>
   notes' (createNote the_host 5 ''u1'' empty_app) =
     [\<lparr>id' = ''u1'', title = ''Untitled'', content = [], createdAt = Num 5, updatedAt = Num 5,
       pinned = Some False, color = Some None\<rparr>] \<and>
   selectedId (createNote the_host 5 ''u1'' empty_app) = Some ''u1'' \<and>
   getItem (localStorage (createNote the_host 5 ''u1'' empty_app)) STORAGE_KEY =
     Some (JSON_stringify_std (notes' (createNote the_host 5 ''u1'' empty_app)))"
proof -
  have b: "browser the_host" and w: "JSON_stringify the_host = JSON_stringify_std"
    by (simp_all add: the_host_def)
  have e: "notes' empty_app = []"
    by (simp add: empty_app_def)
  show ?thesis
    using createNote_builds_untitled_note [of the_host 5 "''u1''" empty_app] b
    unfolding w e by blast
qed

text \<open>The title of a note just created is not the empty string.\<close>

theorem createNote_title_counterexample:
  "title (hd (notes' (createNote the_host 5 ''u1'' empty_app))) \<noteq> []"
  by (simp add: createNote_def Let_def)

subsection \<open>Loading\<close>

text \<open>
  Claim C7. \<^verbatim>\<open>loadNotes\<close> always returns a collection and never an exception. It
  returns the empty collection when the storage key is absent, when \<^verbatim>\<open>JSON.parse\<close>
  throws on the stored text and when the parsed value is not an array. The initial
  state exists, holds the loaded collection, and its selection is \<^verbatim>\<open>null\<close> when
  that collection is empty.
\<close>

theorem loadNotes_never_raises:
  "(\<exists>ns. loadNotes h st = Inr ns) \<and>
   (getItem st STORAGE_KEY = None \<longrightarrow> loadNotes h st = Inr []) \<and>
   (\<forall>raw. getItem st STORAGE_KEY = Some raw \<and> JSON_parse h raw = None \<longrightarrow>
      loadNotes h st = Inr []) \<and>
   (\<forall>raw. getItem st STORAGE_KEY = Some raw \<and> JSON_parse h raw = Some NotArray \<longrightarrow>
      loadNotes h st = Inr []) \<and>
   (\<exists>s0. init h st = Inr s0 \<and> notes' s0 = projr (loadNotes h st) \<and>
      (notes' s0 = [] \<longrightarrow> selectedId s0 = None))"
  by (auto simp: loadNotes_def loadNotes_try_def init_def
      split: option.splits sum.splits parsed.splits list.splits)

text \<open>
  Instances: an empty store, a stored text that the parser rejects, and a stored text
  that parses to an object.
\<close>

theorem loadNotes_never_raises_witness:
  "loadNotes the_host empty_storage = Inr [] \<and>
   getItem (setItem empty_storage STORAGE_KEY ''not json'') STORAGE_KEY = Some ''not json'' \<and>
   JSON_parse the_host ''not json'' = None \<and>
   loadNotes the_host (setItem empty_storage STORAGE_KEY ''not json'') = Inr [] \<and>
   getItem (setItem empty_storage STORAGE_KEY ''{}'') STORAGE_KEY = Some ''{}'' \<and>
   JSON_parse the_host ''{}'' = Some NotArray \<and>
   loadNotes the_host (setItem empty_storage STORAGE_KEY ''{}'') = Inr [] \<and>
   init the_host (setItem empty_storage STORAGE_KEY ''not json'') =
     Inr (empty_app\<lparr>localStorage :=
            setItem (setItem empty_storage STORAGE_KEY ''not json'') STORAGE_KEY ''[]''\<rparr>)"
proof -
  have absent: "getItem empty_storage STORAGE_KEY = None"
    by (simp add: getItem_def empty_storage_def)
  have raw1: "getItem (setItem empty_storage STORAGE_KEY ''not json'') STORAGE_KEY = Some ''not json''"
    by (simp add: getItem_def setItem_def)
  have raw2: "getItem (setItem empty_storage STORAGE_KEY ''{}'') STORAGE_KEY = Some ''{}''"
    by (simp add: getItem_def setItem_def)
  have "JSON_parse_std ''not json'' = None" and "JSON_parse_std ''{}'' = Some NotArray"
    by code_simp+
  then have p1: "JSON_parse the_host ''not json'' = None"
    and p2: "JSON_parse the_host ''{}'' = Some NotArray"
    by (simp_all add: the_host_def)
  have l0: "loadNotes the_host empty_storage = Inr []"
    using loadNotes_never_raises [of the_host empty_storage] absent by blast
  have l1: "loadNotes the_host (setItem empty_storage STORAGE_KEY ''not json'') = Inr []"
    using loadNotes_never_raises [of the_host "setItem empty_storage STORAGE_KEY ''not json''"] raw1 p1
    by blast
  have l2: "loadNotes the_host (setItem empty_storage STORAGE_KEY ''{}'') = Inr []"
    using loadNotes_never_raises [of the_host "setItem empty_storage STORAGE_KEY ''{}''"] raw2 p2
    by blast
  have e: "JSON_stringify the_host [] = ''[]''"
    by (simp add: the_host_def JSON_stringify_std_def)
  have b: "browser the_host"
    by (simp add: the_host_def)
  have i1: "init the_host (setItem empty_storage STORAGE_KEY ''not json'') =
     Inr (empty_app\<lparr>localStorage :=
            setItem (setItem empty_storage STORAGE_KEY ''not json'') STORAGE_KEY ''[]''\<rparr>)"
    using l1 b by (simp add: init_def empty_app_def saveNotes_def e)
  show ?thesis
    using l0 raw1 p1 l1 raw2 p2 l2 i1 by simp
qed

subsection \<open>Deleting the selected note\<close>

lemma findIndex_from_first:
  "i < length xs \<Longrightarrow> P (xs ! i) \<Longrightarrow> \<forall>j<i. \<not> P (xs ! j) \<Longrightarrow>
     findIndex_from k P xs = k + int i"
proof (induction xs arbitrary: k i)
  case Nil
  then show ?case by simp
next
  case (Cons x xs)
  show ?case
  proof (cases i)
    case 0
    with Cons.prems show ?thesis by simp
  next
    case (Suc m)
    with Cons.prems have "\<not> P x" by auto
    moreover from Suc Cons.prems have "findIndex_from (k + 1) P xs = (k + 1) + int m"
      by (intro Cons.IH) auto
    ultimately show ?thesis using Suc by simp
  qed
qed

lemma findIndex_first:
  "i < length xs \<Longrightarrow> P (xs ! i) \<Longrightarrow> \<forall>j<i. \<not> P (xs ! j) \<Longrightarrow> findIndex P xs = int i"
  using findIndex_from_first [of i xs P 0] by (simp add: findIndex_def)

text \<open>
  Claim C2, as the code has it. Let the selected id be a non-empty string and \<open>i\<close> the
  first index of the collection that holds a note of this id. Then \<^verbatim>\<open>deleteSelected\<close>
  removes the note at \<open>i\<close> and nothing else, and the selection becomes the id of the
  note at index \<open>i\<close> of the new collection if there is one, otherwise the id of the note
  at index \<open>i - 1\<close> if there is one, otherwise \<^verbatim>\<open>null\<close>.
\<close>

theorem deleteSelected_reselects:
  assumes sel: "selectedId s = Some sid" and nonempty: "sid \<noteq> []"
    and idx: "i < length (notes' s)" "id' (notes' s ! i) = sid"
    and first: "\<forall>j<i. id' (notes' s ! j) \<noteq> sid"
  shows "notes' (deleteSelected h s) = take i (notes' s) @ drop (Suc i) (notes' s) \<and>
         selectedId (deleteSelected h s) =
           (if i < length (notes' (deleteSelected h s))
              then Some (id' (notes' (deleteSelected h s) ! i))
            else if 0 < i \<and> i - 1 < length (notes' (deleteSelected h s))
              then Some (id' (notes' (deleteSelected h s) ! (i - 1)))
            else None)"
proof -
  have fi: "findIndex (\<lambda>n. id' n = sid) (notes' s) = int i"
    using idx first by (intro findIndex_first) auto
  have prev: "0 < i \<Longrightarrow> nat (int i - 1) = i - 1"
    by simp
  show ?thesis
    using sel nonempty idx(1)
    by (auto simp: deleteSelected_def fi Let_def splice1_def at_index_def prev)
qed

text \<open>
  Instances: deleting \<open>b\<close> from \<open>[a, b, x]\<close> selects \<open>x\<close>, from \<open>[a, b]\<close> selects
  \<open>a\<close>, and from \<open>[b]\<close> selects nothing.
\<close>

theorem deleteSelected_reselects_witness:
  "selectedId (empty_app\<lparr>notes' := [note_A, note_B, note_X], selectedId := Some ''b''\<rparr>) = Some ''b'' \<and>
   notes' (deleteSelected the_host (empty_app\<lparr>notes' := [note_A, note_B, note_X], selectedId := Some ''b''\<rparr>))
     = [note_A, note_X] \<and>
   selectedId (deleteSelected the_host (empty_app\<lparr>notes' := [note_A, note_B, note_X], selectedId := Some ''b''\<rparr>))
     = Some ''x'' \<and>
   notes' (deleteSelected the_host (empty_app\<lparr>notes' := [note_A, note_B], selectedId := Some ''b''\<rparr>))
     = [note_A] \<and>
   selectedId (deleteSelected the_host (empty_app\<lparr>notes' := [note_A, note_B], selectedId := Some ''b''\<rparr>))
     = Some ''a'' \<and>
   notes' (deleteSelected the_host (empty_app\<lparr>notes' := [note_B], selectedId := Some ''b''\<rparr>))
     = [] \<and>
   selectedId (deleteSelected the_host (empty_app\<lparr>notes' := [note_B], selectedId := Some ''b''\<rparr>))
     = None"
proof -
  have ids: "id' note_A = ''a''" "id' note_B = ''b''" "id' note_X = ''x''"
    by (simp_all add: note_A_def note_B_def note_X_def)
  have three: "notes' (deleteSelected the_host (empty_app\<lparr>notes' := [note_A, note_B, note_X], selectedId := Some ''b''\<rparr>))
     = [note_A, note_X] \<and>
   selectedId (deleteSelected the_host (empty_app\<lparr>notes' := [note_A, note_B, note_X], selectedId := Some ''b''\<rparr>))
     = Some ''x''"
    using deleteSelected_reselects [of "empty_app\<lparr>notes' := [note_A, note_B, note_X], selectedId := Some ''b''\<rparr>"
        "''b''" 1 the_host]
    by (simp add: ids)
  have two: "notes' (deleteSelected the_host (empty_app\<lparr>notes' := [note_A, note_B], selectedId := Some ''b''\<rparr>))
     = [note_A] \<and>
   selectedId (deleteSelected the_host (empty_app\<lparr>notes' := [note_A, note_B], selectedId := Some ''b''\<rparr>))
     = Some ''a''"
    using deleteSelected_reselects [of "empty_app\<lparr>notes' := [note_A, note_B], selectedId := Some ''b''\<rparr>"
        "''b''" 1 the_host]
    by (simp add: ids)
  have one: "notes' (deleteSelected the_host (empty_app\<lparr>notes' := [note_B], selectedId := Some ''b''\<rparr>))
     = [] \<and>
   selectedId (deleteSelected the_host (empty_app\<lparr>notes' := [note_B], selectedId := Some ''b''\<rparr>))
     = None"
    using deleteSelected_reselects [of "empty_app\<lparr>notes' := [note_B], selectedId := Some ''b''\<rparr>"
        "''b''" 0 the_host]
    by (simp add: ids)
  show ?thesis
    using three two one by simp
qed

text \<open>
  The guard \<^verbatim>\<open>if (!selectedId) return\<close> also returns for the empty string: a
  selected note whose id is the empty string, at index 0, is not removed. And where two
  notes share the selected id, \<^verbatim>\<open>findIndex\<close> finds the first: the note at index 1
  has the selected id and stays, the note at index 0 goes.
\<close>

theorem deleteSelected_empty_id_counterexample:
  "selectedId blank_app = Some [] \<and>
   id' (notes' blank_app ! 0) = [] \<and>
   notes' (deleteSelected the_host blank_app) = notes' blank_app \<and>
   notes' (deleteSelected the_host blank_app) \<noteq>
     take 0 (notes' blank_app) @ drop (Suc 0) (notes' blank_app) \<and>
   id' ([note_A, note_A\<lparr>title := ''copy''\<rparr>] ! 1) = ''a'' \<and>
   notes' (deleteSelected the_host
      (empty_app\<lparr>notes' := [note_A, note_A\<lparr>title := ''copy''\<rparr>], selectedId := Some ''a''\<rparr>)) =
     [note_A\<lparr>title := ''copy''\<rparr>] \<and>
   [note_A\<lparr>title := ''copy''\<rparr>] \<noteq>
     take 1 [note_A, note_A\<lparr>title := ''copy''\<rparr>] @ drop (Suc 1) [note_A, note_A\<lparr>title := ''copy''\<rparr>]"
  by (simp add: blank_app_def deleteSelected_def findIndex_def splice1_def Let_def note_A_def)

subsection \<open>Updating the selected note\<close>

text \<open>
  Claim C6, as the code has it. Let the selected id be a non-empty string. Then
  \<^verbatim>\<open>updateSelected\<close> keeps the length and order of the collection, leaves every note
  of another id as it was, and in every note of the selected id sets \<^verbatim>\<open>updatedAt\<close>
  to the clock reading (which is at least the earlier value whenever the clock reading
  is), sets each field that the argument supplies, \<^verbatim>\<open>id\<close> and \<^verbatim>\<open>createdAt\<close>
  among them, and leaves each field that the argument does not supply as it was; so
  \<^verbatim>\<open>id\<close> and \<^verbatim>\<open>createdAt\<close> are unchanged whenever the argument does not supply
  them.
\<close>

theorem updateSelected_frame:
  assumes sel: "selectedId s = Some sid" and nonempty: "sid \<noteq> []"
  shows "length (notes' (updateSelected h ts p s)) = length (notes' s) \<and>
         (\<forall>i<length (notes' s).
            (id' (notes' s ! i) \<noteq> sid \<longrightarrow>
               notes' (updateSelected h ts p s) ! i = notes' s ! i) \<and>
            (id' (notes' s ! i) = sid \<longrightarrow>
               updatedAt (notes' (updateSelected h ts p s) ! i) = Num ts \<and>
               (number_le (updatedAt (notes' s ! i)) (Num ts) \<longrightarrow>
                  number_le (updatedAt (notes' s ! i))
                    (updatedAt (notes' (updateSelected h ts p s) ! i))) \<and>
               id' (notes' (updateSelected h ts p s) ! i) =
                 (case p_id p of None \<Rightarrow> id' (notes' s ! i) | Some v \<Rightarrow> v) \<and>
               createdAt (notes' (updateSelected h ts p s) ! i) =
                 (case p_createdAt p of None \<Rightarrow> createdAt (notes' s ! i) | Some v \<Rightarrow> v) \<and>
               title (notes' (updateSelected h ts p s) ! i) =
                 (case p_title p of None \<Rightarrow> title (notes' s ! i) | Some v \<Rightarrow> v) \<and>
               content (notes' (updateSelected h ts p s) ! i) =
                 (case p_content p of None \<Rightarrow> content (notes' s ! i) | Some v \<Rightarrow> v) \<and>
               pinned (notes' (updateSelected h ts p s) ! i) =
                 (case p_pinned p of None \<Rightarrow> pinned (notes' s ! i) | Some v \<Rightarrow> Some v) \<and>
               color (notes' (updateSelected h ts p s) ! i) =
                 (case p_color p of None \<Rightarrow> color (notes' s ! i) | Some v \<Rightarrow> Some v)))"
  using sel nonempty by (simp add: updateSelected_def Let_def spread_def)

text \<open>An instance: \<^verbatim>\<open>{ title: 'x' }\<close> at clock reading 200 on \<open>[a, b]\<close> with \<open>a\<close> selected.\<close>

theorem updateSelected_frame_witness:
  "selectedId (empty_app\<lparr>notes' := [note_A, note_B], selectedId := Some ''a''\<rparr>) = Some ''a'' \<and>
   notes' (updateSelected the_host 200 (only_title ''x'')
            (empty_app\<lparr>notes' := [note_A, note_B], selectedId := Some ''a''\<rparr>)) ! 1 = note_B \<and>
   updatedAt (notes' (updateSelected the_host 200 (only_title ''x'')
            (empty_app\<lparr>notes' := [note_A, note_B], selectedId := Some ''a''\<rparr>)) ! 0) = Num 200 \<and>
   id' (notes' (updateSelected the_host 200 (only_title ''x'')
            (empty_app\<lparr>notes' := [note_A, note_B], selectedId := Some ''a''\<rparr>)) ! 0) = ''a'' \<and>
   createdAt (notes' (updateSelected the_host 200 (only_title ''x'')
            (empty_app\<lparr>notes' := [note_A, note_B], selectedId := Some ''a''\<rparr>)) ! 0) = Num 1 \<and>
   title (notes' (updateSelected the_host 200 (only_title ''x'')
            (empty_app\<lparr>notes' := [note_A, note_B], selectedId := Some ''a''\<rparr>)) ! 0) = ''x'' \<and>
   content (notes' (updateSelected the_host 200 (only_title ''x'')
            (empty_app\<lparr>notes' := [note_A, note_B], selectedId := Some ''a''\<rparr>)) ! 0) = ''milk''"
proof -
  let ?s = "empty_app\<lparr>notes' := [note_A, note_B], selectedId := Some ''a''\<rparr>"
  have sel: "selectedId ?s = Some ''a''" and ne: "''a'' \<noteq> []"
    by simp_all
  have len: "length (notes' ?s) = 2" and n0: "notes' ?s ! 0 = note_A" and n1: "notes' ?s ! 1 = note_B"
    by simp_all
  have ids: "id' note_A = ''a''" "id' note_B \<noteq> ''a''"
    by (simp_all add: note_A_def note_B_def)
  note fr = updateSelected_frame [OF sel ne, of the_host 200 "only_title ''x''"]
  from fr have at0: "0 < length (notes' ?s) \<longrightarrow> (id' (notes' ?s ! 0) = ''a'' \<longrightarrow>
               updatedAt (notes' (updateSelected the_host 200 (only_title ''x'') ?s) ! 0) = Num 200 \<and>
               (number_le (updatedAt (notes' ?s ! 0)) (Num 200) \<longrightarrow>
                  number_le (updatedAt (notes' ?s ! 0))
                    (updatedAt (notes' (updateSelected the_host 200 (only_title ''x'') ?s) ! 0))) \<and>
               id' (notes' (updateSelected the_host 200 (only_title ''x'') ?s) ! 0) =
                 (case p_id (only_title ''x'') of None \<Rightarrow> id' (notes' ?s ! 0) | Some v \<Rightarrow> v) \<and>
               createdAt (notes' (updateSelected the_host 200 (only_title ''x'') ?s) ! 0) =
                 (case p_createdAt (only_title ''x'') of None \<Rightarrow> createdAt (notes' ?s ! 0) | Some v \<Rightarrow> v) \<and>
               title (notes' (updateSelected the_host 200 (only_title ''x'') ?s) ! 0) =
                 (case p_title (only_title ''x'') of None \<Rightarrow> title (notes' ?s ! 0) | Some v \<Rightarrow> v) \<and>
               content (notes' (updateSelected the_host 200 (only_title ''x'') ?s) ! 0) =
                 (case p_content (only_title ''x'') of None \<Rightarrow> content (notes' ?s ! 0) | Some v \<Rightarrow> v) \<and>
               pinned (notes' (updateSelected the_host 200 (only_title ''x'') ?s) ! 0) =
                 (case p_pinned (only_title ''x'') of None \<Rightarrow> pinned (notes' ?s ! 0) | Some v \<Rightarrow> Some v) \<and>
               color (notes' (updateSelected the_host 200 (only_title ''x'') ?s) ! 0) =
                 (case p_color (only_title ''x'') of None \<Rightarrow> color (notes' ?s ! 0) | Some v \<Rightarrow> Some v))"
    by blast
  from fr have at1: "1 < length (notes' ?s) \<longrightarrow> id' (notes' ?s ! 1) \<noteq> ''a'' \<longrightarrow>
               notes' (updateSelected the_host 200 (only_title ''x'') ?s) ! 1 = notes' ?s ! 1"
    by blast
  have r1: "notes' (updateSelected the_host 200 (only_title ''x'') ?s) ! 1 = note_B"
    using at1 ids by (simp only: len n1) simp
  have r0: "updatedAt (notes' (updateSelected the_host 200 (only_title ''x'') ?s) ! 0) = Num 200 \<and>
            id' (notes' (updateSelected the_host 200 (only_title ''x'') ?s) ! 0) = ''a'' \<and>
            createdAt (notes' (updateSelected the_host 200 (only_title ''x'') ?s) ! 0) = Num 1 \<and>
            title (notes' (updateSelected the_host 200 (only_title ''x'') ?s) ! 0) = ''x'' \<and>
            content (notes' (updateSelected the_host 200 (only_title ''x'') ?s) ! 0) = ''milk''"
    using at0 ids(1) unfolding len n0 by (simp add: only_title_def note_A_def)
  show ?thesis
    using sel r1 r0 by blast
qed

text \<open>
  An argument that supplies \<^verbatim>\<open>id\<close> changes the id of the selected note; and a
  selected note whose id is the empty string is not updated at all.
\<close>

theorem updateSelected_id_counterexample:
  "selectedId (empty_app\<lparr>notes' := [note_A], selectedId := Some ''a''\<rparr>) = Some ''a'' \<and>
   id' (notes' (empty_app\<lparr>notes' := [note_A], selectedId := Some ''a''\<rparr>) ! 0) = ''a'' \<and>
   id' (notes' (updateSelected the_host 200 (only_id ''zz'')
          (empty_app\<lparr>notes' := [note_A], selectedId := Some ''a''\<rparr>)) ! 0) \<noteq> ''a'' \<and>
   selectedId blank_app = Some [] \<and>
   id' (notes' blank_app ! 0) = [] \<and>
   updatedAt (notes' (updateSelected the_host 200 (only_title ''x'') blank_app) ! 0) \<noteq> Num 200"
  by (simp add: updateSelected_def Let_def spread_def only_id_def note_A_def blank_app_def)

subsection \<open>The selection refers to a note\<close>

lemma at_index_in_set: "at_index xs k = Some n \<Longrightarrow> n \<in> set xs"
  by (auto simp: at_index_def split: if_splits)

lemma selection_ok_init: "init h st = Inr s0 \<Longrightarrow> selection_ok s0"
  by (auto simp: init_def selection_ok_def split: sum.splits list.splits)

lemma selection_ok_createNote: "selection_ok (createNote h ts uuid s)"
  by (simp add: createNote_def selection_ok_def Let_def)

lemma bex_map_if_keep:
  "(\<And>n. g (f n) = g n) \<Longrightarrow>
     (\<exists>m\<in>set (map (\<lambda>n. if P n then f n else n) xs). g m = i) = (\<exists>n\<in>set xs. g n = i)"
  by (induction xs) auto

lemma selection_ok_updateSelected:
  "selection_ok s \<Longrightarrow> p_id p = None \<Longrightarrow> selection_ok (updateSelected h ts p s)"
  by (auto simp: updateSelected_def selection_ok_def Let_def spread_def bex_map_if_keep
      simp del: set_map split: option.splits)

lemma selection_ok_setColor: "selection_ok s \<Longrightarrow> selection_ok (setColor h ts c s)"
  by (auto simp: setColor_def selection_ok_def Let_def bex_map_if_keep
      simp del: set_map split: option.splits)

lemma selection_ok_togglePin: "selection_ok s \<Longrightarrow> selection_ok (togglePin h ts i s)"
  by (auto simp: togglePin_def selection_ok_def Let_def bex_map_if_keep
      simp del: set_map split: option.splits)

lemma selection_ok_deleteSelected: "selection_ok s \<Longrightarrow> selection_ok (deleteSelected h s)"
  by (auto simp: deleteSelected_def selection_ok_def Let_def dest: at_index_in_set
      split: option.splits)

lemma selection_ok_step: "selection_ok s \<Longrightarrow> ui_event s e \<Longrightarrow> selection_ok (step h s e)"
proof (cases e)
  case (Select i)
  assume "ui_event s e"
  with Select show ?thesis by (simp add: selectNote_def selection_ok_def)
qed (simp_all add: selection_ok_createNote selection_ok_updateSelected selection_ok_setColor
      selection_ok_togglePin selection_ok_deleteSelected)

lemma selection_ok_run: "selection_ok s \<Longrightarrow> ui_run h s es \<Longrightarrow> selection_ok (run h s es)"
  by (induction es arbitrary: s) (auto simp: selection_ok_step)

text \<open>
  Claim C3, as the code has it. Start from the initial state that the page loads and
  apply any sequence of \<^verbatim>\<open>createNote\<close>, \<^verbatim>\<open>updateSelected\<close>, \<^verbatim>\<open>deleteSelected\<close>,
  \<^verbatim>\<open>togglePin\<close>, \<^verbatim>\<open>setColor\<close> and \<^verbatim>\<open>selectNote\<close> in which every
  \<^verbatim>\<open>selectNote(id)\<close> names the id of a note that is in the collection at that moment
  and no \<^verbatim>\<open>updateSelected\<close> supplies an \<^verbatim>\<open>id\<close> field. In the state reached, the
  selection is \<^verbatim>\<open>null\<close> or the id of a note of the collection.
\<close>

theorem selection_never_dangles:
  assumes "init h st = Inr s0" and "ui_run h s0 es"
  shows "case selectedId (run h s0 es) of
           None \<Rightarrow> True
         | Some i \<Rightarrow> \<exists>n\<in>set (notes' (run h s0 es)). id' n = i"
proof -
  from assms(1) have "selection_ok s0"
    by (rule selection_ok_init)
  then have "selection_ok (run h s0 es)"
    using assms(2) by (rule selection_ok_run)
  then show ?thesis
    by (simp add: selection_ok_def)
qed

text \<open>An instance: a session of seven events on an empty store, ending with a deletion.\<close>

theorem selection_never_dangles_witness:
  "init the_host empty_storage = Inr fresh_app \<and>
   ui_run the_host fresh_app
     [Create 1 ''u1'', Create 2 ''u2'', Select ''u1'', Update 3 (only_title ''x''),
      TogglePin 4 (Some ''u2''), SetColor 5 None, Delete] \<and>
   selectedId (run the_host fresh_app
     [Create 1 ''u1'', Create 2 ''u2'', Select ''u1'', Update 3 (only_title ''x''),
      TogglePin 4 (Some ''u2''), SetColor 5 None, Delete]) = Some ''u2'' \<and>
   map id' (notes' (run the_host fresh_app
     [Create 1 ''u1'', Create 2 ''u2'', Select ''u1'', Update 3 (only_title ''x''),
      TogglePin 4 (Some ''u2''), SetColor 5 None, Delete])) = [''u2'']"
proof -
  let ?es = "[Create 1 ''u1'', Create 2 ''u2'', Select ''u1'', Update 3 (only_title ''x''),
      TogglePin 4 (Some ''u2''), SetColor 5 None, Delete]"
  have i: "init the_host empty_storage = Inr fresh_app"
    by (simp add: init_def loadNotes_def loadNotes_try_def getItem_def empty_storage_def
        saveNotes_def empty_app_def fresh_app_def the_host_def JSON_stringify_std_def)
  have u: "ui_run the_host fresh_app ?es"
    by (simp add: createNote_def selectNote_def updateSelected_def togglePin_def setColor_def
        Let_def only_title_def spread_def empty_app_def fresh_app_def)
  have r: "selectedId (run the_host fresh_app ?es) = Some ''u2''"
    by (simp add: createNote_def selectNote_def updateSelected_def togglePin_def setColor_def
        deleteSelected_def findIndex_def splice1_def at_index_def
        Let_def only_title_def spread_def empty_app_def fresh_app_def)
  have n: "map id' (notes' (run the_host fresh_app ?es)) = [''u2'']"
    by (simp add: createNote_def selectNote_def updateSelected_def togglePin_def setColor_def
        deleteSelected_def findIndex_def splice1_def at_index_def
        Let_def only_title_def spread_def empty_app_def fresh_app_def)
  show ?thesis
    using i u r n selection_never_dangles [OF i u] by simp
qed

text \<open>
  \<^verbatim>\<open>selectNote\<close> stores its argument unchecked, so selecting an id that no note has
  leaves a selection without a note; and an \<^verbatim>\<open>updateSelected\<close> that supplies
  \<^verbatim>\<open>id\<close> renames the selected note under the selection.
\<close>

theorem selection_dangles_counterexample:
  "init the_host empty_storage = Inr fresh_app \<and>
   selectedId (run the_host fresh_app [Select ''ghost'']) = Some ''ghost'' \<and>
   notes' (run the_host fresh_app [Select ''ghost'']) = [] \<and>
   selectedId (run the_host fresh_app [Create 1 ''u1'', Update 2 (only_id ''u2'')]) = Some ''u1'' \<and>
   map id' (notes' (run the_host fresh_app [Create 1 ''u1'', Update 2 (only_id ''u2'')])) = [''u2'']"
  by (simp add: init_def loadNotes_def loadNotes_try_def getItem_def empty_storage_def
      saveNotes_def the_host_def JSON_stringify_std_def createNote_def selectNote_def
      updateSelected_def Let_def only_id_def spread_def empty_app_def fresh_app_def)

subsection \<open>Matching and the derived view\<close>

lemma trimmed_trim: "trimmed (trim x)"
proof (cases "trim x = []")
  case True
  then show ?thesis by (simp add: trimmed_def)
next
  case False
  define a where "a = dropWhile isWhiteSpace x"
  define b where "b = dropWhile isWhiteSpace (rev a)"
  have t: "trim x = rev b"
    by (simp add: trim_def a_def b_def)
  with False have bne: "b \<noteq> []" by simp
  then have hb: "\<not> isWhiteSpace (hd b)"
    unfolding b_def by (rule hd_dropWhile)
  from bne have ane: "a \<noteq> []"
    by (auto simp: b_def)
  then have ha: "\<not> isWhiteSpace (hd a)"
    unfolding a_def by (rule hd_dropWhile)
  have "suffix b (rev a)"
    unfolding b_def by (rule suffix_dropWhile)
  then obtain c where "rev a = c @ b"
    by (auto simp: suffix_def)
  with bne have "last b = last (rev a)"
    by simp
  also have "\<dots> = hd a"
    using ane by (simp add: last_rev)
  finally have lb: "\<not> isWhiteSpace (last b)"
    using ha by simp
  show ?thesis
    using bne hb lb by (simp add: trimmed_def t hd_rev last_rev)
qed

lemma sublist_trim_self: "sublist (trim s) s"
proof -
  have "suffix (dropWhile isWhiteSpace (rev (dropWhile isWhiteSpace s))) (rev (dropWhile isWhiteSpace s))"
    by (rule suffix_dropWhile)
  then have "prefix (trim s) (dropWhile isWhiteSpace s)"
    by (simp add: trim_def suffix_to_prefix)
  moreover have "suffix (dropWhile isWhiteSpace s) s"
    by (rule suffix_dropWhile)
  ultimately show ?thesis
    by (meson prefix_imp_sublist suffix_imp_sublist sublist_order.order_trans)
qed

lemma sublist_trim_keeps:
  assumes "trimmed q" and "sublist q s"
  shows "sublist q (trim s)"
proof (cases "q = []")
  case True
  then show ?thesis by simp
next
  case False
  with assms(1) have h: "\<not> isWhiteSpace (hd q)" and l: "\<not> isWhiteSpace (last q)"
    by (simp_all add: trimmed_def)
  from assms(2) obtain ps ss where s: "s = ps @ q @ ss"
    by (auto simp: sublist_def)
  from False obtain c q' where q: "q = c # q'"
    by (cases q) auto
  have front: "dropWhile isWhiteSpace s = dropWhile isWhiteSpace ps @ q @ ss"
    using h by (simp add: s q dropWhile_append3)
  from False obtain d r where rq: "rev q = d # r"
    by (cases "rev q") auto
  have "d = last q"
    using rq False by (metis hd_rev list.sel(1))
  with l have d: "\<not> isWhiteSpace d" by simp
  have "rev (dropWhile isWhiteSpace s) = rev ss @ d # (r @ rev (dropWhile isWhiteSpace ps))"
    by (simp add: front rq)
  then have "dropWhile isWhiteSpace (rev (dropWhile isWhiteSpace s))
      = dropWhile isWhiteSpace (rev ss) @ d # (r @ rev (dropWhile isWhiteSpace ps))"
    using d by (simp add: dropWhile_append3)
  then have "trim s = dropWhile isWhiteSpace ps @ rev (d # r) @ rev (dropWhile isWhiteSpace (rev ss))"
    by (simp add: trim_def)
  also have "rev (d # r) = q"
    using rq by (metis rev_rev_ident)
  finally show ?thesis
    by (auto simp: sublist_def)
qed

lemma includes_normalized:
  "sublist (normalize' q) (normalize' t) \<longleftrightarrow> sublist (normalize' q) (toLowerCase t)"
proof
  assume "sublist (normalize' q) (normalize' t)"
  moreover have "sublist (normalize' t) (toLowerCase t)"
    unfolding normalize'_def by (rule sublist_trim_self)
  ultimately show "sublist (normalize' q) (toLowerCase t)"
    by (rule sublist_order.order_trans)
next
  assume "sublist (normalize' q) (toLowerCase t)"
  then show "sublist (normalize' q) (normalize' t)"
    unfolding normalize'_def by (intro sublist_trim_keeps trimmed_trim)
qed

lemma mset_insert_cmp: "mset (insert_cmp cmp x xs) = add_mset x (mset xs)"
  by (induction xs) auto

lemma mset_array_sort: "mset (array_sort cmp xs) = mset xs"
  by (induction xs) (auto simp: array_sort_def mset_insert_cmp)

text \<open>
  Claim C5. A note matches a query exactly when the query is empty or the lower-cased
  and then trimmed query is a contiguous part of the lower-cased title or of the
  lower-cased content (the code also trims title and content, which makes no
  difference to a trimmed query). The derived view holds, with their multiplicity,
  the notes of the collection that match the query and, when the pinned-only toggle is
  on, have \<^verbatim>\<open>pinned\<close> equal to \<^verbatim>\<open>true\<close>.
\<close>

theorem matches_iff_and_filtered:
  "(matches n q \<longleftrightarrow>
      q = [] \<or>
      sublist (trim (toLowerCase q)) (toLowerCase (title n)) \<or>
      sublist (trim (toLowerCase q)) (toLowerCase (content n))) \<and>
   mset (filtered h s) =
     filter_mset (\<lambda>n. matches n (query s) \<and> (showPinnedOnly s \<longrightarrow> pinned n = Some True))
       (mset (notes' s))"
proof -
  have "matches n q \<longleftrightarrow>
      q = [] \<or>
      sublist (normalize' q) (toLowerCase (title n)) \<or>
      sublist (normalize' q) (toLowerCase (content n))"
    by (simp add: matches_def Let_def includes_normalized)
  moreover have "mset (filtered h s) =
     filter_mset (\<lambda>n. matches n (query s) \<and> (showPinnedOnly s \<longrightarrow> pinned n = Some True))
       (mset (notes' s))"
    by (auto simp: filtered_def sorted_notes_def mset_array_sort intro: filter_mset_cong)
  ultimately show ?thesis
    by (simp add: normalize'_def)
qed

text \<open>
  Instances: the query \<open>Todo\<close> with a space on each side matches the note titled
  \<open>My TODO list\<close> and not the note titled \<open>Apple\<close>; with the toggle on, the view holds
  the pinned notes among the matching ones.
\<close>

theorem matches_iff_and_filtered_witness:
  "matches note_A '' Todo '' \<and>
   trim (toLowerCase '' Todo '') = ''todo'' \<and>
   sublist ''todo'' (toLowerCase (title note_A)) \<and>
   \<not> matches note_B '' Todo '' \<and>
   showPinnedOnly todo_app \<and>
   mset (filtered the_host todo_app) = {#} \<and>
   mset (filtered the_host (todo_app\<lparr>showPinnedOnly := False\<rparr>)) = {#note_A#} \<and>
   mset (filtered the_host (todo_app\<lparr>query := []\<rparr>)) = {#note_B#}"
proof -
  have t: "trim (toLowerCase '' Todo '') = ''todo''"
    by code_simp
  have la: "toLowerCase (title note_A) = ''my todo list''" and ca: "toLowerCase (content note_A) = ''milk''"
    and lb: "toLowerCase (title note_B) = ''apple''" and cb: "toLowerCase (content note_B) = []"
    and lx: "toLowerCase (title note_X) = ''banana''" and cx: "toLowerCase (content note_X) = ''old''"
    by code_simp+
  have sa: "sublist ''todo'' ''my todo list''"
    by (simp add: sublist_code)
  have ns: "\<not> sublist ''todo'' ''apple''" "\<not> sublist ''todo'' ''banana''" "\<not> sublist ''todo'' ''old''"
    "\<not> sublist ''todo'' ''milk''"
    by (simp_all add: sublist_code)
  have pins: "pinned note_A = Some False" "pinned note_B = Some True" "pinned note_X = None"
    by (simp_all add: note_A_def note_B_def note_X_def)
  note m = matches_iff_and_filtered
  have ma: "matches note_A '' Todo ''"
    using m [of note_A "'' Todo ''"] by (simp add: t la sa)
  have mb: "\<not> matches note_B '' Todo ''"
    using m [of note_B "'' Todo ''"] by (simp add: t lb cb ns)
  have mx: "\<not> matches note_X '' Todo ''"
    using m [of note_X "'' Todo ''"] by (simp add: t lx cx ns)
  have me: "\<And>n. matches n []"
    using m [of _ "[]"] by simp
  have f1: "mset (filtered the_host todo_app) = {#}"
    using m [of note_A "[]" the_host todo_app] ma mb mx
    by (simp add: todo_app_def empty_app_def pins)
  have f2: "mset (filtered the_host (todo_app\<lparr>showPinnedOnly := False\<rparr>)) = {#note_A#}"
    using m [of note_A "[]" the_host "todo_app\<lparr>showPinnedOnly := False\<rparr>"] ma mb mx
    by (simp add: todo_app_def empty_app_def pins)
  have f3: "mset (filtered the_host (todo_app\<lparr>query := []\<rparr>)) = {#note_B#}"
    using m [of note_A "[]" the_host "todo_app\<lparr>query := []\<rparr>"] me
    by (simp add: todo_app_def empty_app_def pins)
  have sp: "showPinnedOnly todo_app"
    by (simp add: todo_app_def)
  show ?thesis
    using ma t sa mb sp f1 f2 f3 by (simp add: la)
qed

subsection \<open>Reading back the text of a JSON value\<close>

text \<open>Numbers: the digits of a natural number are read back as that number.\<close>

lemma digit_char_cases:
  "d < 10 \<Longrightarrow> d = 0 \<or> d = 1 \<or> d = 2 \<or> d = 3 \<or> d = 4 \<or> d = 5 \<or> d = 6 \<or> d = 7 \<or> d = 8 \<or> d = (9::nat)"
  by arith

lemma is_digit_digit_char: "d < 10 \<Longrightarrow> is_digit (digit_char d)"
  using digit_char_cases [of d] by (auto simp: is_digit_def digit_char_def)

lemma digit_val_digit_char: "d < 10 \<Longrightarrow> digit_val (digit_char d) = d"
  using digit_char_cases [of d] by (auto simp: digit_val_def digit_char_def)

lemma digit_char_zero: "d < 10 \<Longrightarrow> digit_char d = CHR ''0'' \<longleftrightarrow> d = 0"
  using digit_char_cases [of d] by (auto simp: digit_char_def)

lemma digits_all: "\<forall>c\<in>set (digits n). is_digit c"
  by (induction n rule: digits.induct) (subst digits.simps, simp add: is_digit_digit_char)

lemma digits_nonempty: "digits n \<noteq> []"
  by (subst digits.simps) simp

lemma digits_val_append: "digits_val (xs @ [c]) = 10 * digits_val xs + digit_val c"
  by (simp add: digits_val_def)

lemma digits_val_digits: "digits_val (digits n) = n"
proof (induction n rule: digits.induct)
  case (1 n)
  show ?case
  proof (cases "n < 10")
    case True
    then show ?thesis
      by (subst digits.simps) (simp add: digits_val_def digit_val_digit_char)
  next
    case False
    with 1 have "digits_val (digits (n div 10)) = n div 10" by simp
    with False show ?thesis
      by (subst digits.simps) (simp add: digits_val_append digit_val_digit_char)
  qed
qed

lemma hd_digits: "hd (digits n) = CHR ''0'' \<Longrightarrow> n = 0"
proof (induction n rule: digits.induct)
  case (1 n)
  show ?case
  proof (cases "n < 10")
    case True
    with 1(2) show ?thesis
      by (subst (asm) digits.simps) (simp add: digit_char_zero)
  next
    case False
    with 1(2) have "hd (digits (n div 10)) = CHR ''0''"
      by (subst (asm) digits.simps) (simp add: digits_nonempty)
    with 1(1) False have "n div 10 = 0" by simp
    with False show ?thesis by simp
  qed
qed

lemma digits_zero: "digits 0 = ''0''"
  by (subst digits.simps) (simp add: digit_char_def)

lemma takeWhile_digits: "delim r \<Longrightarrow> takeWhile is_digit (digits n @ r) = digits n"
  using digits_all [of n]
  by (cases r) (auto simp: delim_def is_digit_def takeWhile_append2 intro!: takeWhile_eq_all_conv [THEN iffD2])

lemma dropWhile_digits: "delim r \<Longrightarrow> dropWhile is_digit (digits n @ r) = r"
  using digits_all [of n]
  by (cases r) (auto simp: delim_def is_digit_def dropWhile_append2)

lemma read_number_digits:
  assumes "delim r"
  shows "read_number (digits n @ r) = Some (JNumber (int n), r)"
    and "read_number (CHR ''-'' # digits n @ r) = Some (JNumber (- int n), r)"
proof -
  obtain c t where d: "digits n = c # t"
    using digits_nonempty [of n] by (cases "digits n") auto
  have cd: "is_digit c"
    using digits_all [of n] d by simp
  then have cm: "c \<noteq> CHR ''-''"
    by (auto simp: is_digit_def)
  have lead: "c = CHR ''0'' \<Longrightarrow> t = []"
  proof -
    assume "c = CHR ''0''"
    with d have "hd (digits n) = CHR ''0''" by simp
    then have "n = 0" by (rule hd_digits)
    with d show "t = []" by (simp add: digits_zero)
  qed
  have rest: "\<not> (case r of [] \<Rightarrow> False | c # _ \<Rightarrow> c \<in> set ''.eE'')"
    using assms by (cases r) (auto simp: delim_def)
  have tw: "takeWhile is_digit (c # t @ r) = c # t" and dw: "dropWhile is_digit (c # t @ r) = r"
    using takeWhile_digits [OF assms, of n] dropWhile_digits [OF assms, of n]
    by (simp_all add: d)
  have val: "digits_val (c # t) = n"
    using digits_val_digits [of n] by (simp add: d)
  show "read_number (digits n @ r) = Some (JNumber (int n), r)"
    using rest lead val cm
    by (simp add: read_number_def d tw dw Let_def del: takeWhile.simps dropWhile.simps)
  show "read_number (CHR ''-'' # digits n @ r) = Some (JNumber (- int n), r)"
    using rest lead val
    by (simp add: read_number_def d tw dw Let_def del: takeWhile.simps dropWhile.simps)
qed

lemma read_number_print:
  assumes "delim r"
  shows "read_number (print_json (JNumber i) @ r) = Some (JNumber i, r)"
proof (cases "i < 0")
  case True
  then have p: "print_json (JNumber i) = CHR ''-'' # digits (nat (- i))"
    by simp
  from True have "- int (nat (- i)) = i" by simp
  then show ?thesis
    using read_number_digits(2) [OF assms, of "nat (- i)"] by (simp only: p append_Cons)
next
  case False
  then have p: "print_json (JNumber i) = digits (nat i)"
    by simp
  from False have "int (nat i) = i" by simp
  then show ?thesis
    using read_number_digits(1) [OF assms, of "nat i"] by (simp only: p)
qed


lemma hex_cases:
  "d < 16 \<Longrightarrow> d = 0 \<or> d = 1 \<or> d = 2 \<or> d = 3 \<or> d = 4 \<or> d = 5 \<or> d = 6 \<or> d = 7 \<or>
     d = 8 \<or> d = 9 \<or> d = 10 \<or> d = 11 \<or> d = 12 \<or> d = 13 \<or> d = 14 \<or> d = (15::nat)"
  by arith

lemma hex_val_hex_char: "d < 16 \<Longrightarrow> hex_val (hex_char d) = Some d"
  using hex_cases [of d] by (auto simp: hex_val_def hex_char_def)

lemma read_hex4_control:
  assumes "(of_char c :: nat) < 32"
  shows "read_hex4 CHR ''0'' CHR ''0'' (hex_char ((of_char c :: nat) div 16))
           (hex_char ((of_char c :: nat) mod 16)) = Some c"
proof -
  have z: "hex_val CHR ''0'' = Some 0"
    by (simp add: hex_val_def)
  have a: "hex_val (hex_char ((of_char c :: nat) div 16)) = Some ((of_char c :: nat) div 16)"
    using assms by (intro hex_val_hex_char) simp
  have b: "hex_val (hex_char ((of_char c :: nat) mod 16)) = Some ((of_char c :: nat) mod 16)"
    by (intro hex_val_hex_char) simp
  show ?thesis
    by (simp add: read_hex4_def z a b)
qed

lemma read_chars_quote_char:
  "read_chars (quote_char c @ s) = map_option (\<lambda>(v, t). (c # v, t)) (read_chars s)"
proof -
  consider "c = CHR 0x22" | "c = CHR 0x5C" | "c = CHR 0x08" | "c = CHR 0x0C" | "c = CHR 0x0A"
    | "c = CHR 0x0D" | "c = CHR 0x09"
    | "c \<notin> set [CHR 0x22, CHR 0x5C, CHR 0x08, CHR 0x0C, CHR 0x0A, CHR 0x0D, CHR 0x09]"
      "(of_char c :: nat) < 32"
    | "c \<notin> set [CHR 0x22, CHR 0x5C, CHR 0x08, CHR 0x0C, CHR 0x0A, CHR 0x0D, CHR 0x09]"
      "\<not> (of_char c :: nat) < 32"
    by auto
  then show ?thesis
  proof cases
    case 8
    then show ?thesis
      by (simp add: quote_char_def read_hex4_control)
  next
    case 9
    then show ?thesis
      by (simp add: quote_char_def)
  qed (simp_all add: quote_char_def unescape_def)
qed

lemma read_chars_quoted:
  "read_chars (concat (map quote_char v) @ CHR 0x22 # r) = Some (v, r)"
  by (induction v) (simp_all add: read_chars_quote_char del: read_chars.simps, simp)

text \<open>
  Values: by induction along the printer, the parser reads the text of a value back as
  that value, given a bound that is at least the length of the text.
\<close>

lemma skip_ws_Cons: "\<not> is_ws c \<Longrightarrow> skip_ws (c # s) = c # s"
  by (simp add: skip_ws_def)

lemma number_first:
  "\<exists>c t. print_json (JNumber i) = c # t \<and> (c = CHR ''-'' \<or> is_digit c)"
proof -
  obtain c t where d: "digits (nat \<bar>i\<bar>) = c # t"
    using digits_nonempty [of "nat \<bar>i\<bar>"] by (cases "digits (nat \<bar>i\<bar>)") auto
  have "is_digit c"
    using digits_all [of "nat \<bar>i\<bar>"] d by simp
  with d show ?thesis
    by (cases "i < 0") (auto simp del: abs_if)
qed

lemma print_json_first:
  "\<exists>c t. print_json v = c # t \<and> \<not> is_ws c \<and> c \<noteq> CHR '']'' \<and> c \<noteq> CHR ''}''"
proof (cases v)
  case (JNumber i)
  obtain c t where "print_json (JNumber i) = c # t" "c = CHR ''-'' \<or> is_digit c"
    using number_first by blast
  with JNumber show ?thesis
    by (auto simp: is_ws_def is_digit_def)
qed (auto simp: is_ws_def QuoteJSONString_def)

lemma print_elements_first:
  "vs \<noteq> [] \<Longrightarrow> \<exists>c t. print_elements vs = c # t \<and> \<not> is_ws c \<and> c \<noteq> CHR '']''"
proof (cases vs)
  case Nil
  assume "vs \<noteq> []"
  with Nil show ?thesis by simp
next
  case (Cons v ws)
  obtain c t where "print_json v = c # t" "\<not> is_ws c" "c \<noteq> CHR '']''"
    using print_json_first by blast
  with Cons show ?thesis
    by (cases ws) auto
qed

lemma print_members_first:
  "ms \<noteq> [] \<Longrightarrow> \<exists>t. print_members ms = CHR 0x22 # t"
proof (cases ms)
  case Nil
  assume "ms \<noteq> []"
  with Nil show ?thesis by simp
next
  case (Cons m ws)
  then show ?thesis
    by (cases m; cases ws) (auto simp: QuoteJSONString_def)
qed

lemma parse_value_scalar:
  assumes "delim r"
  shows "parse_value (Suc k) (print_json JNull @ r) = Some (JNull, r)"
    and "parse_value (Suc k) (print_json (JBool b) @ r) = Some (JBool b, r)"
    and "parse_value (Suc k) (print_json (JNumber i) @ r) = Some (JNumber i, r)"
    and "parse_value (Suc k) (print_json (JString v) @ r) = Some (JString v, r)"
proof -
  show "parse_value (Suc k) (print_json JNull @ r) = Some (JNull, r)"
    by (simp add: skip_ws_Cons is_ws_def)
  show "parse_value (Suc k) (print_json (JBool b) @ r) = Some (JBool b, r)"
    by (simp add: skip_ws_Cons is_ws_def)
  show "parse_value (Suc k) (print_json (JString v) @ r) = Some (JString v, r)"
    by (simp add: skip_ws_Cons is_ws_def QuoteJSONString_def read_chars_quoted)
  obtain c t where p: "print_json (JNumber i) = c # t" and c: "c = CHR ''-'' \<or> is_digit c"
    using number_first by blast
  from c have nws: "\<not> is_ws c" and nb: "c \<noteq> CHR ''[''" "c \<noteq> CHR ''{''" "c \<noteq> CHR 0x22"
    "c \<noteq> CHR ''n''" "c \<noteq> CHR ''t''" "c \<noteq> CHR ''f''"
    by (auto simp: is_ws_def is_digit_def)
  have "read_number (c # t @ r) = Some (JNumber i, r)"
    using read_number_print [OF assms, of i] by (simp only: p append_Cons)
  then show "parse_value (Suc k) (print_json (JNumber i) @ r) = Some (JNumber i, r)"
    using nb by (simp only: p append_Cons parse_value.simps skip_ws_Cons [OF nws]) simp
qed


lemma delim_simps [simp]:
  "delim []" "delim (CHR '','' # r)" "delim (CHR '']'' # r)" "delim (CHR ''}'' # r)"
  by (simp_all add: delim_def)

lemma skip_ws_delims [simp]:
  "skip_ws (CHR '','' # r) = CHR '','' # r" "skip_ws (CHR '']'' # r) = CHR '']'' # r"
  "skip_ws (CHR ''}'' # r) = CHR ''}'' # r" "skip_ws (CHR '':'' # r) = CHR '':'' # r"
  "skip_ws (CHR 0x22 # r) = CHR 0x22 # r"
  by (simp_all add: skip_ws_def is_ws_def)

lemma parse_print:
  shows "length (print_json v) \<le> k \<Longrightarrow> delim r \<Longrightarrow>
           parse_value k (print_json v @ r) = Some (v, r)"
    and "vs \<noteq> [] \<Longrightarrow> length (print_elements vs) < k \<Longrightarrow>
           parse_elements k (print_elements vs @ CHR '']'' # r) = Some (vs, r)"
    and "ms \<noteq> [] \<Longrightarrow> length (print_members ms) < k \<Longrightarrow>
           parse_members k (print_members ms @ CHR ''}'' # r) = Some (ms, r)"
proof (induction v and vs and ms arbitrary: k r and k r and k r
    rule: print_json_print_elements_print_members.induct)
  case 1
  then obtain j where "k = Suc j" by (cases k) auto
  with 1 show ?case by (simp only: parse_value_scalar)
next
  case (2 b)
  then obtain j where "k = Suc j" by (cases k; cases b) auto
  with 2 show ?case by (simp only: parse_value_scalar)
next
  case (3 i)
  have "print_json (JNumber i) \<noteq> []"
    using number_first [of i] by auto
  with 3 obtain j where "k = Suc j" by (cases k) auto
  with 3 show ?case by (simp only: parse_value_scalar)
next
  case (4 v)
  then obtain j where "k = Suc j" by (cases k) (auto simp: QuoteJSONString_def)
  with 4 show ?case by (simp only: parse_value_scalar)
next
  case (5 vs)
  from 5(2) obtain j where k: "k = Suc j" and j: "length (print_elements vs) < j"
    by (cases k) auto
  show ?case
  proof (cases "vs = []")
    case True
    then show ?thesis
      by (simp add: k skip_ws_Cons is_ws_def)
  next
    case False
    then obtain c t where p: "print_elements vs = c # t" and c: "\<not> is_ws c" "c \<noteq> CHR '']''"
      using print_elements_first by blast
    have "parse_elements j (print_elements vs @ CHR '']'' # r) = Some (vs, r)"
      using False j by (rule 5(1))
    then have e: "parse_elements j (c # t @ CHR '']'' # r) = Some (vs, r)"
      by (simp add: p)
    have o: "\<not> is_ws CHR ''[''"
      by (simp add: is_ws_def)
    show ?thesis
      using c e by (simp add: k p skip_ws_Cons o)
  qed
next
  case (6 ms)
  from 6(2) obtain j where k: "k = Suc j" and j: "length (print_members ms) < j"
    by (cases k) auto
  have o: "\<not> is_ws CHR ''{''"
    by (simp add: is_ws_def)
  show ?case
  proof (cases "ms = []")
    case True
    then show ?thesis
      by (simp add: k skip_ws_Cons o)
  next
    case False
    then obtain t where p: "print_members ms = CHR 0x22 # t"
      using print_members_first by blast
    have "parse_members j (print_members ms @ CHR ''}'' # r) = Some (ms, r)"
      using False j by (rule 6(1))
    then have e: "parse_members j (CHR 0x22 # t @ CHR ''}'' # r) = Some (ms, r)"
      by (simp add: p)
    show ?thesis
      using e by (simp add: k p skip_ws_Cons o)
  qed
next
  case 7
  then show ?case by simp
next
  case (8 v)
  from 8(3) obtain j where k: "k = Suc j" and j: "length (print_json v) \<le> j"
    by (cases k) auto
  have "parse_value j (print_json v @ CHR '']'' # r) = Some (v, CHR '']'' # r)"
    using j by (rule 8(1)) simp
  then show ?case
    by (simp add: k)
next
  case (9 v w vs)
  from 9(4) obtain j where k: "k = Suc j"
    and j: "length (print_json v) + 1 + length (print_elements (w # vs)) \<le> j"
    by (cases k) auto
  from j have jv: "length (print_json v) \<le> j" and jr: "length (print_elements (w # vs)) < j"
    by simp_all
  have "parse_value j (print_json v @ CHR '','' # print_elements (w # vs) @ CHR '']'' # r)
          = Some (v, CHR '','' # print_elements (w # vs) @ CHR '']'' # r)"
    using jv by (rule 9(1)) simp
  moreover have "parse_elements j (print_elements (w # vs) @ CHR '']'' # r) = Some (w # vs, r)"
    using jr by (intro 9(2)) simp_all
  ultimately show ?case
    by (simp add: k)
next
  case 10
  then show ?case by simp
next
  case (11 key v)
  from 11(3) obtain j where k: "k = Suc j" and j: "length (print_json v) \<le> j"
    by (cases k) auto
  have "parse_value j (print_json v @ CHR ''}'' # r) = Some (v, CHR ''}'' # r)"
    using j by (rule 11(1)) simp
  then show ?case
    by (simp add: k QuoteJSONString_def read_chars_quoted)
next
  case (12 key v m ms)
  from 12(4) obtain j where k: "k = Suc j"
    and jv: "length (print_json v) \<le> j" and jr: "length (print_members (m # ms)) < j"
    by (cases k) auto
  have "parse_value j (print_json v @ CHR '','' # print_members (m # ms) @ CHR ''}'' # r)
          = Some (v, CHR '','' # print_members (m # ms) @ CHR ''}'' # r)"
    using jv by (rule 12(1)) simp
  moreover have "parse_members j (print_members (m # ms) @ CHR ''}'' # r) = Some (m # ms, r)"
    using jr by (intro 12(2)) simp_all
  ultimately show ?case
    by (simp add: k QuoteJSONString_def read_chars_quoted)
qed

lemma parse_json_print_json: "parse_json (print_json v) = Some v"
  using parse_print(1) [of v "Suc (length (print_json v))" "[]"]
  by (simp add: parse_json_def skip_ws_def)

declare delim_simps [simp del] skip_ws_delims [simp del]

subsection \<open>Loading what was saved\<close>

lemma json_to_note_note_to_json: "json_to_note (note_to_json n) = Some (reloaded n)"
proof -
  have num: "json_to_number (number_to_json v) = Some (reloaded_number v)" for v
    by (cases v) (simp_all add: json_to_number_def number_to_json_def reloaded_number_def)
  show ?thesis
    by (cases "pinned n"; cases "color n"; cases "the (color n)")
      (simp_all add: json_to_note_def note_to_json_def json_to_string_def json_to_pinned_def
        json_to_color_def num reloaded_def)
qed

lemma those_json_to_note:
  "those (map (json_to_note \<circ> note_to_json) ns) = Some (map reloaded ns)"
  by (induction ns) (simp_all add: json_to_note_note_to_json)

lemma JSON_parse_stringify:
  "JSON_parse_std (JSON_stringify_std ns) = Some (IsArray (map reloaded ns))"
  by (simp add: JSON_parse_std_def JSON_stringify_std_def parse_json_print_json
      those_json_to_note del: print_json.simps)

lemma JSON_stringify_nonempty: "JSON_stringify_std ns \<noteq> []"
  by (simp add: JSON_stringify_std_def)

lemma reloaded_same: "createdAt n \<noteq> NaN \<Longrightarrow> updatedAt n \<noteq> NaN \<Longrightarrow> reloaded n = n"
  by (cases "createdAt n"; cases "updatedAt n") (simp_all add: reloaded_def reloaded_number_def)

lemma persisted_init: "browser h \<Longrightarrow> init h st = Inr s0 \<Longrightarrow> persisted h s0"
  by (auto simp: init_def persisted_def saveNotes_def setItem_def getItem_def split: sum.splits)

lemma persisted_saved:
  "browser h \<Longrightarrow> persisted h (s\<lparr>notes' := ns, localStorage := saveNotes h ns (localStorage s)\<rparr>)"
  by (simp add: persisted_def saveNotes_def setItem_def getItem_def)

lemma persisted_saved_sel:
  "browser h \<Longrightarrow>
     persisted h (s\<lparr>notes' := ns, selectedId := x, localStorage := saveNotes h ns (localStorage s)\<rparr>)"
  by (simp add: persisted_def saveNotes_def setItem_def getItem_def)

lemma persisted_step:
  assumes "browser h" and "persisted h s"
  shows "persisted h (step h s e)"
proof (cases e)
  case (Create ts uuid)
  then show ?thesis
    using assms(1) by (simp add: createNote_def Let_def persisted_saved_sel)
next
  case (Update ts p)
  then show ?thesis
    using assms by (simp add: updateSelected_def Let_def persisted_saved split: option.splits)
next
  case Delete
  then show ?thesis
    using assms by (simp add: deleteSelected_def Let_def persisted_saved_sel split: option.splits)
next
  case (Select i)
  then show ?thesis
    using assms(2) by (simp add: selectNote_def persisted_def)
next
  case (TogglePin ts i)
  then show ?thesis
    using assms by (simp add: togglePin_def Let_def persisted_saved split: option.splits)
next
  case (SetColor ts c)
  then show ?thesis
    using assms by (simp add: setColor_def Let_def persisted_saved split: option.splits)
qed

lemma persisted_run: "browser h \<Longrightarrow> persisted h s \<Longrightarrow> persisted h (run h s es)"
  by (induction es arbitrary: s) (auto simp: persisted_step)

text \<open>
  In a browser with the JSON functions of the standard, after any session the store
  loads to the collection with every \<^verbatim>\<open>NaN\<close> time stamp turned into \<^verbatim>\<open>null\<close>.
\<close>

lemma load_after_session:
  assumes "browser h" and "JSON_stringify h = JSON_stringify_std"
    and "JSON_parse h = JSON_parse_std" and "init h st = Inr s0"
  shows "loadNotes h (localStorage (run h s0 es)) = Inr (map reloaded (notes' (run h s0 es)))"
proof -
  from assms(1,4) have "persisted h s0"
    by (rule persisted_init)
  with assms(1) have "persisted h (run h s0 es)"
    by (rule persisted_run)
  then show ?thesis
    using assms(1)
    by (simp add: persisted_def loadNotes_def loadNotes_try_def assms(2,3)
        JSON_parse_stringify JSON_stringify_nonempty)
qed

lemma init_the_host: "init the_host empty_storage = Inr fresh_app"
  by (simp add: init_def loadNotes_def loadNotes_try_def getItem_def empty_storage_def
      saveNotes_def empty_app_def fresh_app_def the_host_def JSON_stringify_std_def)

text \<open>
  Claim C8, as the code has it. In a browser, with \<^verbatim>\<open>JSON.stringify\<close> and
  \<^verbatim>\<open>JSON.parse\<close> as the standard defines them, start from the initial state loaded
  from any store and apply any sequence of handlers (\<^verbatim>\<open>createNote\<close>,
  \<^verbatim>\<open>updateSelected\<close>, \<^verbatim>\<open>deleteSelected\<close>, and the others as well). If no time
  stamp of the final collection is \<^verbatim>\<open>NaN\<close>, then \<^verbatim>\<open>loadNotes\<close> on the final store
  returns the final collection.
\<close>

theorem load_after_save_roundtrip:
  assumes "browser h" and "JSON_stringify h = JSON_stringify_std"
    and "JSON_parse h = JSON_parse_std" and "init h st = Inr s0"
    and "\<forall>n\<in>set (notes' (run h s0 es)). createdAt n \<noteq> NaN \<and> updatedAt n \<noteq> NaN"
  shows "loadNotes h (localStorage (run h s0 es)) = Inr (notes' (run h s0 es))"
proof -
  have "map reloaded (notes' (run h s0 es)) = notes' (run h s0 es)"
    using assms(5) by (intro map_idI reloaded_same) auto
  then show ?thesis
    using load_after_session [OF assms(1-4), of es] by simp
qed

text \<open>
  An instance: in the browser of the examples, starting on an empty store, a session of
  five events.
\<close>

theorem load_after_save_roundtrip_witness:
  "browser the_host \<and>
   JSON_stringify the_host = JSON_stringify_std \<and>
   JSON_parse the_host = JSON_parse_std \<and>
   init the_host empty_storage = Inr fresh_app \<and>
   notes' (run the_host fresh_app session) =
     [\<lparr>id' = ''u1'', title = ''x'', content = [], createdAt = Num 1, updatedAt = Num 2,
       pinned = Some False, color = Some None\<rparr>] \<and>
   loadNotes the_host (localStorage (run the_host fresh_app session)) =
     Inr [\<lparr>id' = ''u1'', title = ''x'', content = [], createdAt = Num 1, updatedAt = Num 2,
           pinned = Some False, color = Some None\<rparr>]"
proof -
  have b: "browser the_host" and js: "JSON_stringify the_host = JSON_stringify_std"
    and jp: "JSON_parse the_host = JSON_parse_std"
    by (simp_all add: the_host_def)
  note i = init_the_host
  have n: "notes' (run the_host fresh_app session) =
     [\<lparr>id' = ''u1'', title = ''x'', content = [], createdAt = Num 1, updatedAt = Num 2,
       pinned = Some False, color = Some None\<rparr>]"
    by (simp add: session_def createNote_def updateSelected_def togglePin_def
        deleteSelected_def findIndex_def splice1_def at_index_def
        Let_def only_title_def spread_def empty_app_def fresh_app_def)
  have f: "\<forall>n\<in>set (notes' (run the_host fresh_app session)).
             createdAt n \<noteq> NaN \<and> updatedAt n \<noteq> NaN"
    by (simp add: n)
  have "loadNotes the_host (localStorage (run the_host fresh_app session)) =
          Inr (notes' (run the_host fresh_app session))"
    using b js jp i f by (rule load_after_save_roundtrip)
  then have l: "loadNotes the_host (localStorage (run the_host fresh_app session)) =
     Inr [\<lparr>id' = ''u1'', title = ''x'', content = [], createdAt = Num 1, updatedAt = Num 2,
           pinned = Some False, color = Some None\<rparr>]"
    by (simp only: n)
  show ?thesis
    using b js jp i n l by blast
qed

text \<open>
  An update that sets \<^verbatim>\<open>createdAt\<close> to \<^verbatim>\<open>NaN\<close> is saved with \<^verbatim>\<open>null\<close> in
  its place, and the store loads to a collection that differs from the one in memory.
  And outside a browser \<^verbatim>\<open>saveNotes\<close> writes nothing: after \<^verbatim>\<open>createNote\<close> the
  collection has a note and \<^verbatim>\<open>loadNotes\<close> returns none.
\<close>

theorem load_after_save_counterexample:
  "init the_host empty_storage = Inr fresh_app \<and>
   notes' (run the_host fresh_app nan_session) =
     [\<lparr>id' = ''u1'', title = ''Untitled'', content = [], createdAt = NaN, updatedAt = Num 2,
       pinned = Some False, color = Some None\<rparr>] \<and>
   loadNotes the_host (localStorage (run the_host fresh_app nan_session)) =
     Inr [\<lparr>id' = ''u1'', title = ''Untitled'', content = [], createdAt = Null, updatedAt = Num 2,
           pinned = Some False, color = Some None\<rparr>] \<and>
   loadNotes the_host (localStorage (run the_host fresh_app nan_session)) \<noteq>
     Inr (notes' (run the_host fresh_app nan_session)) \<and>
   init ssr_host empty_storage = Inr empty_app \<and>
   notes' (run ssr_host empty_app [Create 1 ''u1'']) \<noteq> [] \<and>
   loadNotes ssr_host (localStorage (run ssr_host empty_app [Create 1 ''u1''])) = Inr []"
proof -
  have b: "browser the_host" and js: "JSON_stringify the_host = JSON_stringify_std"
    and jp: "JSON_parse the_host = JSON_parse_std"
    by (simp_all add: the_host_def)
  note i = init_the_host
  have n: "notes' (run the_host fresh_app nan_session) =
     [\<lparr>id' = ''u1'', title = ''Untitled'', content = [], createdAt = NaN, updatedAt = Num 2,
       pinned = Some False, color = Some None\<rparr>]"
    by (simp add: nan_session_def createNote_def updateSelected_def Let_def only_createdAt_def
        spread_def empty_app_def fresh_app_def)
  have "loadNotes the_host (localStorage (run the_host fresh_app nan_session)) =
          Inr (map reloaded (notes' (run the_host fresh_app nan_session)))"
    using b js jp i by (rule load_after_session)
  then have l: "loadNotes the_host (localStorage (run the_host fresh_app nan_session)) =
     Inr [\<lparr>id' = ''u1'', title = ''Untitled'', content = [], createdAt = Null, updatedAt = Num 2,
           pinned = Some False, color = Some None\<rparr>]"
    by (simp add: n reloaded_def reloaded_number_def)
  have d: "loadNotes the_host (localStorage (run the_host fresh_app nan_session)) \<noteq>
     Inr (notes' (run the_host fresh_app nan_session))"
    by (simp add: l n)
  have nb: "\<not> browser ssr_host"
    by (simp add: ssr_host_def)
  have si: "init ssr_host empty_storage = Inr empty_app"
    using nb by (simp add: init_def loadNotes_def saveNotes_def empty_app_def)
  have sn: "notes' (run ssr_host empty_app [Create 1 ''u1'']) \<noteq> []"
    by (simp add: createNote_def Let_def)
  have sl: "loadNotes ssr_host (localStorage (run ssr_host empty_app [Create 1 ''u1''])) = Inr []"
    using nb by (simp add: loadNotes_def)
  show ?thesis
    using i n l d si sn sl by blast
qed

subsection \<open>Sorting\<close>

lemma set_insert_cmp: "set (insert_cmp cmp x xs) = insert x (set xs)"
  by (induction xs) auto

lemma compare_notes_unpinned_pinned:
  "pinned a = Some False \<Longrightarrow> pinned b = Some True \<Longrightarrow>
     SortCompare (compare_notes h m) a b = 1"
  by (simp add: SortCompare_def compare_notes_def or_number_def minus_number_def Number_bool_def)

lemma compare_notes_pinned_unpinned:
  "pinned a = Some True \<Longrightarrow> pinned b = Some False \<Longrightarrow>
     SortCompare (compare_notes h m) a b = -1"
  by (simp add: SortCompare_def compare_notes_def or_number_def minus_number_def Number_bool_def)

lemma set_array_sort: "set (array_sort cmp xs) = set xs"
  by (induction xs) (simp_all add: array_sort_def set_insert_cmp)

lemma pin_first_Cons:
  "pin_first (x # xs) \<longleftrightarrow>
     (\<forall>b\<in>set xs. \<not> (pinned x = Some False \<and> pinned b = Some True)) \<and> pin_first xs"
  by (simp add: pin_first_def)

text \<open>
  Where every note has a \<^verbatim>\<open>pinned\<close> field the first key of the comparator decides
  between a pinned and an unpinned note, whatever the second key and the collator do,
  and the sort puts pinned notes first in every mode.
\<close>

lemma pin_first_insert:
  assumes "pinned x \<noteq> None"
  shows "\<forall>n\<in>set ys. pinned n \<noteq> None \<Longrightarrow> pin_first ys \<Longrightarrow>
           pin_first (insert_cmp (SortCompare (compare_notes h m)) x ys)"
proof (induction ys)
  case Nil
  show ?case by (simp add: pin_first_def)
next
  case (Cons y ys)
  from Cons.prems(1) have y: "pinned y \<noteq> None" and rest: "\<forall>n\<in>set ys. pinned n \<noteq> None"
    by simp_all
  from Cons.prems(2) have tail: "pin_first ys"
    and after_y: "\<forall>b\<in>set ys. \<not> (pinned y = Some False \<and> pinned b = Some True)"
    by (simp_all add: pin_first_Cons)
  show ?case
  proof (cases "SortCompare (compare_notes h m) x y \<le> 0")
    case True
    have xy: "\<not> (pinned x = Some False \<and> pinned y = Some True)"
      using True compare_notes_unpinned_pinned [of x y h m] by fastforce
    have "\<forall>b\<in>set ys. \<not> (pinned x = Some False \<and> pinned b = Some True)"
    proof
      fix b assume b: "b \<in> set ys"
      show "\<not> (pinned x = Some False \<and> pinned b = Some True)"
      proof
        assume c: "pinned x = Some False \<and> pinned b = Some True"
        with xy have "pinned y \<noteq> Some True" by simp
        with y have "pinned y = Some False" by (cases "pinned y") auto
        with after_y b c show False by blast
      qed
    qed
    with xy have "pin_first (x # y # ys)"
      using Cons.prems(2) by (simp add: pin_first_Cons)
    with True show ?thesis by simp
  next
    case False
    have yx: "\<not> (pinned y = Some False \<and> pinned x = Some True)"
      using False compare_notes_pinned_unpinned [of x y h m] by fastforce
    have "pin_first (insert_cmp (SortCompare (compare_notes h m)) x ys)"
      using rest tail by (rule Cons.IH)
    with yx after_y have "pin_first (y # insert_cmp (SortCompare (compare_notes h m)) x ys)"
      by (simp add: pin_first_Cons set_insert_cmp)
    with False show ?thesis by simp
  qed
qed

lemma pin_first_array_sort:
  "\<forall>n\<in>set xs. pinned n \<noteq> None \<Longrightarrow> pin_first (array_sort (SortCompare (compare_notes h m)) xs)"
proof (induction xs)
  case Nil
  show ?case by (simp add: array_sort_def pin_first_def)
next
  case (Cons x xs)
  from Cons.prems have x: "pinned x \<noteq> None" and rest: "\<forall>n\<in>set xs. pinned n \<noteq> None"
    by simp_all
  from rest have ih: "pin_first (array_sort (SortCompare (compare_notes h m)) xs)"
    by (rule Cons.IH)
  from rest have all: "\<forall>n\<in>set (array_sort (SortCompare (compare_notes h m)) xs). pinned n \<noteq> None"
    by (simp add: set_array_sort)
  have "array_sort (SortCompare (compare_notes h m)) (x # xs) =
          insert_cmp (SortCompare (compare_notes h m)) x (array_sort (SortCompare (compare_notes h m)) xs)"
    by (simp add: array_sort_def)
  then show ?case
    using pin_first_insert [OF x all ih] by simp
qed

lemma pin_first_sorted_notes:
  "\<forall>n\<in>set xs. pinned n \<noteq> None \<Longrightarrow> pin_first (sorted_notes h m xs)"
  unfolding sorted_notes_def by (rule pin_first_array_sort)

text \<open>
  The example of the specification: \<open>A\<close> unpinned and updated at 100, \<open>B\<close> pinned and
  updated at 50, sorted by update time.
\<close>

lemma sorted_notes_pin_wins:
  "sorted_notes h Updated [note_A, note_B] = [note_B, note_A]"
  by (simp add: sorted_notes_def array_sort_def SortCompare_def compare_notes_def or_number_def
      minus_number_def Number_bool_def ToNumber_def note_A_def note_B_def)

text \<open>
  Claim C4, at a collection that the code does not sort pinned first. \<open>A\<close> is
  unpinned and updated at 100, \<open>X\<close> has no \<^verbatim>\<open>pinned\<close> field and was updated at 75,
  \<open>B\<close> is pinned and updated at 50. Against \<open>X\<close> the first key is \<^verbatim>\<open>NaN\<close> and the
  comparator falls back to the update time, so \<open>A\<close> sorts before \<open>X\<close> and \<open>X\<close> before
  \<open>B\<close>: the list comes back as it is, the unpinned \<open>A\<close> before the pinned \<open>B\<close>.
\<close>

theorem sorted_notes_absent_pinned:
  "sorted_notes h Updated [note_A, note_X, note_B] = [note_A, note_X, note_B] \<and>
   pinned note_A = Some False \<and> pinned note_X = None \<and> pinned note_B = Some True \<and>
   \<not> pin_first (sorted_notes h Updated [note_A, note_X, note_B])"
  by (simp add: sorted_notes_def array_sort_def SortCompare_def compare_notes_def or_number_def
      minus_number_def Number_bool_def ToNumber_def note_A_def note_B_def note_X_def
      pin_first_def)

end
